theory Spec2Isabelle
  imports Complex_Main
begin

section \<open>Python and numpy primitives used by SpeechFingerprinting.py\<close>

text \<open>
  Exceptions are values. The constructors are the exception classes that the statements of
  \<^verbatim>\<open>SpeechFingerprinting.py\<close> themselves can raise; \<open>Raised name\<close> is any exception that
  comes out of a function the file imports (\<^verbatim>\<open>normalization\<close>, \<^verbatim>\<open>preEmphasis\<close>,
  \<^verbatim>\<open>librosa.util.frame\<close>, \<^verbatim>\<open>librosa.stft\<close>).
\<close>

datatype error = ValueError | IndexError | OverflowError | Raised string

definition ebind :: "error + 'a \<Rightarrow> ('a \<Rightarrow> error + 'b) \<Rightarrow> error + 'b" where
  "ebind m f = (case m of Inl e \<Rightarrow> Inl e | Inr a \<Rightarrow> f a)"

text \<open>A \<^verbatim>\<open>for\<close> loop over a finite sequence, the loop body updating the state or raising.\<close>

fun for_each :: "'i list \<Rightarrow> ('i \<Rightarrow> 's \<Rightarrow> error + 's) \<Rightarrow> 's \<Rightarrow> error + 's" where
  "for_each [] body s = Inr s"
| "for_each (i # rest) body s = ebind (body i s) (for_each rest body)"

text \<open>
  Indexing one axis of length \<open>n\<close> with a Python integer: \<open>-n \<le> i < 0\<close> counts from the end,
  anything outside \<open>-n \<le> i < n\<close> raises \<^verbatim>\<open>IndexError\<close>.
\<close>

definition axis_index :: "nat \<Rightarrow> int \<Rightarrow> error + nat" where
  "axis_index n i =
     (if 0 \<le> i \<and> i < int n then Inr (nat i)
      else if i < 0 \<and> - int n \<le> i then Inr (nat (int n + i))
      else Inl IndexError)"

definition getitem :: "'a list \<Rightarrow> int \<Rightarrow> error + 'a" where
  "getitem xs i = ebind (axis_index (length xs) i) (\<lambda>k. Inr (xs ! k))"

text \<open>\<^verbatim>\<open>a[i][j]\<close> read and \<^verbatim>\<open>a[i][j] = v\<close> (also \<^verbatim>\<open>a[i, j] = v\<close>) on a two-dimensional array.\<close>

definition getitem2 :: "'a list list \<Rightarrow> int \<Rightarrow> int \<Rightarrow> error + 'a" where
  "getitem2 a i j = ebind (getitem a i) (\<lambda>row. getitem row j)"

definition setitem2 :: "'a list list \<Rightarrow> int \<Rightarrow> int \<Rightarrow> 'a \<Rightarrow> error + 'a list list" where
  "setitem2 a i j v =
     ebind (axis_index (length a) i) (\<lambda>r.
     ebind (axis_index (length (a ! r)) j) (\<lambda>c.
       Inr (a[r := (a ! r)[c := v]])))"

text \<open>\<^verbatim>\<open>np.zeros((rows, cols))\<close>: a negative dimension raises \<^verbatim>\<open>ValueError\<close>.\<close>

definition np_zeros :: "int \<Rightarrow> int \<Rightarrow> error + real list list" where
  "np_zeros rows cols =
     (if rows < 0 \<or> cols < 0 then Inl ValueError
      else Inr (replicate (nat rows) (replicate (nat cols) 0)))"

text \<open>\<^verbatim>\<open>range(start, stop)\<close> and \<^verbatim>\<open>range(0, stop, step)\<close> for \<open>start, stop \<ge> 0\<close>.\<close>

definition py_range :: "nat \<Rightarrow> int \<Rightarrow> nat list" where
  "py_range start stop = [start ..< nat stop]"

definition py_range_step :: "nat \<Rightarrow> int \<Rightarrow> error + nat list" where
  "py_range_step stop step =
     (if step = 0 then Inl ValueError
      else if step < 0 then Inr []
      else Inr (map (\<lambda>t. t * nat step) [0 ..< (stop + nat step - 1) div nat step]))"

section \<open>Band-energy fingerprint: bit derivation (lines 74--81)\<close>

text \<open>
  The test of line 78 on the energy matrix. The subtraction and the comparison with 0 are
  those of the element type; nothing below depends on which arithmetic it is, so the
  element type is left open (the code runs it on IEEE doubles, the rest of this theory on
  \<open>real\<close>). The four reads are numpy reads: at \<open>j = 0\<close> the last one is
  \<^verbatim>\<open>energy[i-1][-1]\<close>.
\<close>

definition bit_value :: "'a::{minus,zero,ord} list list \<Rightarrow> int \<Rightarrow> int \<Rightarrow> error + real" where
  "bit_value energy i j =
     ebind (getitem2 energy i j) (\<lambda>a.
     ebind (getitem2 energy i (j + 1)) (\<lambda>b.
     ebind (getitem2 energy (i - 1) j) (\<lambda>c.
     ebind (getitem2 energy (i - 1) (j - 1)) (\<lambda>d.
       Inr (if a - b - (c - d) > 0 then 1 else 0)))))"

text \<open>
  Lines 75--81. \<open>n_frames\<close> is \<^verbatim>\<open>len(frames)\<close>, \<open>energy\<close> is \<^verbatim>\<open>filter_banks\<close>;
  \<^verbatim>\<open>len(filter_banks[0])\<close> is evaluated inside the outer loop only, where the matrix has
  at least two rows.
\<close>

definition bit_derivation ::
  "nat \<Rightarrow> int \<Rightarrow> 'a::{minus,zero,ord} list list \<Rightarrow> error + real list list" where
  "bit_derivation n_frames n_bands energy =
     ebind (np_zeros (int n_frames) (n_bands - 1)) (\<lambda>fp0.
       for_each (py_range 1 (int (length energy)))
         (\<lambda>i. for_each (py_range 0 (int (length (energy ! 0)) - 1))
            (\<lambda>j fp. ebind (bit_value energy (int i) (int j))
                       (\<lambda>b. setitem2 fp (int i) (int j) b)))
         fp0)"

section \<open>Band-energy fingerprint: arguments and collaborators\<close>

text \<open>
  A Python number is an \<^verbatim>\<open>int\<close> or a \<^verbatim>\<open>float\<close>; \<^verbatim>\<open>(1 - overlapping) * window_length\<close>
  is an \<^verbatim>\<open>int\<close> exactly when \<^verbatim>\<open>overlapping\<close> is one.
\<close>

datatype pynum = PyInt int | PyFloat real

fun hop_length :: "pynum \<Rightarrow> int \<Rightarrow> pynum" where
  "hop_length (PyInt ov) wl = PyInt ((1 - ov) * wl)"
| "hop_length (PyFloat ov) wl = PyFloat ((1 - ov) * real_of_int wl)"

text \<open>
  The keyword parameters: those the two functions share, those of
  \<^verbatim>\<open>extractFBEFingerprinting\<close> (line 12) and those of \<^verbatim>\<open>extractLandmarksFingerprinting\<close>
  (line 94).
\<close>

record analysis_args =
  normalize :: bool
  fft_points :: int
  overlapping :: pynum
  window_length :: int
  window_type :: string
  display :: bool

record fbe_args = analysis_args +
  n_bands :: int
  low_freq :: real
  high_freq :: real

record landmark_args = analysis_args +
  height :: int
  width :: int

text \<open>
  The functions the file calls but does not define: \<^verbatim>\<open>normalization\<close> and
  \<^verbatim>\<open>preEmphasis\<close> (from \<^verbatim>\<open>utils.basic_functions\<close>), \<^verbatim>\<open>librosa.util.frame\<close> followed by
  \<^verbatim>\<open>.T\<close> (one row per frame) and \<^verbatim>\<open>librosa.stft\<close>. They are parameters of the model,
  with the arguments the call sites pass: \<^verbatim>\<open>frame(samples, frame_length, hop_length)\<close> and
  \<^verbatim>\<open>stft(samples, sr, n_fft, win_length, hop_length, window_type)\<close>.
\<close>

record collaborators =
  normalization :: "real list \<Rightarrow> error + real list"
  preEmphasis :: "real list \<Rightarrow> real \<Rightarrow> error + real list"
  frame :: "real list \<Rightarrow> int \<Rightarrow> pynum \<Rightarrow> error + real list list"
  stft :: "real list \<Rightarrow> real \<Rightarrow> int \<Rightarrow> int \<Rightarrow> pynum \<Rightarrow> string \<Rightarrow> error + complex list list"

text \<open>Lines 28--36: the frames, one per row.\<close>

definition fbe_frames :: "collaborators \<Rightarrow> fbe_args \<Rightarrow> real list \<Rightarrow> real \<Rightarrow> error + real list list" where
  "fbe_frames col a samples sr =
     ebind (if normalize a then normalization col samples else Inr samples) (\<lambda>s1.
     ebind (preEmphasis col s1 sr) (\<lambda>s2.
       frame col s2 (window_length a) (hop_length (overlapping a) (window_length a))))"

section \<open>Band-energy fingerprint: power spectrum (lines 37--39)\<close>

text \<open>
  \<^verbatim>\<open>np.fft.fft(frames, n)\<close> along the last axis: each frame is cut or zero-padded to \<open>n\<close>
  points; \<open>n < 1\<close> raises \<^verbatim>\<open>ValueError\<close>.
\<close>

definition dft_bin :: "nat \<Rightarrow> real list \<Rightarrow> nat \<Rightarrow> complex" where
  "dft_bin n x k =
     sum_list (map (\<lambda>t. (if t < length x then complex_of_real (x ! t) else 0)
                          * cis (- 2 * pi * real k * real t / real n)) [0 ..< n])"

definition np_fft :: "real list list \<Rightarrow> int \<Rightarrow> error + complex list list" where
  "np_fft frames n =
     (if n < 1 then Inl ValueError
      else Inr (map (\<lambda>x. map (dft_bin (nat n) x) [0 ..< nat n]) frames))"

definition power_spectrum :: "real list list \<Rightarrow> int \<Rightarrow> error + real list list" where
  "power_spectrum frames n =
     ebind (np_fft frames n) (\<lambda>spectrum.
       Inr (map (\<lambda>row. map (\<lambda>z. (cmod z)\<^sup>2 / real_of_int n) (take (nat (n div 2 + 1)) row))
              spectrum))"

section \<open>Band-energy fingerprint: filterbank (lines 41--66)\<close>

definition bark :: "real \<Rightarrow> real" where
  "bark f = 6 * arsinh (f / 600)"

text \<open>Lines 42 and 43: the two ends of the Bark axis.\<close>

definition bark_low :: "real \<Rightarrow> real" where
  "bark_low lf = 6 * arsinh (lf / 600)"

definition bark_high :: "real \<Rightarrow> real \<Rightarrow> real" where
  "bark_high hf sr = min (6 * arsinh (hf / 600)) (sr / 2)"

text \<open>\<^verbatim>\<open>np.linspace(start, stop, num)\<close>; a negative \<open>num\<close> raises \<^verbatim>\<open>ValueError\<close>.\<close>

definition np_linspace :: "real \<Rightarrow> real \<Rightarrow> int \<Rightarrow> error + real list" where
  "np_linspace start stop num =
     (if num < 0 then Inl ValueError
      else if num = 1 then Inr [start]
      else Inr (map (\<lambda>t. start + real t * ((stop - start) / real_of_int (num - 1))) [0 ..< nat num]))"

text \<open>
  \<^verbatim>\<open>int(bin[i])\<close> with \<^verbatim>\<open>bin = (fft_points // 2 + 1) * hz_freq / sr\<close>: truncation towards
  zero. With \<open>sr = 0\<close> the numpy division gives \<^verbatim>\<open>nan\<close> or an infinity, on which
  \<^verbatim>\<open>int\<close> raises \<^verbatim>\<open>ValueError\<close> or \<^verbatim>\<open>OverflowError\<close>.
\<close>

definition py_int :: "real \<Rightarrow> int" where
  "py_int x = (if 0 \<le> x then \<lfloor>x\<rfloor> else \<lceil>x\<rceil>)"

definition int_of_bin :: "int \<Rightarrow> real \<Rightarrow> real \<Rightarrow> error + int" where
  "int_of_bin ncols hz sr =
     (if sr = 0 then (if real_of_int ncols * hz = 0 then Inl ValueError else Inl OverflowError)
      else Inr (py_int (real_of_int ncols * hz / sr)))"

text \<open>
  \<^verbatim>\<open>10 ** x\<close> on Python floats raises \<^verbatim>\<open>OverflowError\<close> when the power exceeds the largest
  double, \<open>1.797\<dots>e308 = 10 powr 308.2547\<dots>\<close>. The exponents the code forms are multiples
  of \<open>0.05\<close>, so the digits after \<open>308.25\<close> do not matter.
\<close>

definition py_pow10 :: "real \<Rightarrow> error + real" where
  "py_pow10 x = (if 308.2547 < x then Inl OverflowError else Inr (10 powr x))"

text \<open>Lines 56--66: the weight of bin \<open>k\<close> in a band centred at \<open>center\<close>.\<close>

definition band_weight :: "int \<Rightarrow> int \<Rightarrow> error + real" where
  "band_weight center k =
     (let delta = real_of_int (center - k) in
      if delta < - 1.3 then Inr 0
      else if - 1.3 \<le> delta \<and> delta \<le> - 0.5 then py_pow10 (2.5 * (real_of_int k + 0.5))
      else if - 0.5 \<le> delta \<and> delta \<le> 0.5 then Inr 1
      else if 0.5 \<le> delta \<and> delta \<le> 2.5 then py_pow10 (- 0.1 * (real_of_int k - 0.5))
      else Inr 0)"

text \<open>Lines 55--66: the inner loop of band \<open>m\<close>, writing row \<open>m - 1\<close>.\<close>

definition fill_band :: "int \<Rightarrow> int \<Rightarrow> int \<Rightarrow> int \<Rightarrow> real list list \<Rightarrow> error + real list list" where
  "fill_band m low center high fbank =
     for_each [low .. high - 1]
       (\<lambda>k fb. ebind (band_weight center k) (\<lambda>w. setitem2 fb (m - 1) k w)) fbank"

text \<open>Lines 44 and 45: the band edges in Hz.\<close>

definition hz_freq :: "real \<Rightarrow> real \<Rightarrow> real \<Rightarrow> int \<Rightarrow> error + real list" where
  "hz_freq lf hf sr nb =
     ebind (np_linspace (bark_low lf) (bark_high hf sr) (nb + 2)) (\<lambda>bark_freq.
       Inr (map (\<lambda>b. 600 * sinh (b / 6)) bark_freq))"

text \<open>\<^verbatim>\<open>int(bin[i])\<close> of lines 52--54.\<close>

definition bin_index :: "int \<Rightarrow> real list \<Rightarrow> real \<Rightarrow> int \<Rightarrow> error + int" where
  "bin_index ncols hz sr i = ebind (getitem hz i) (\<lambda>h. int_of_bin ncols h sr)"

text \<open>Lines 51--66: one iteration of the outer loop.\<close>

definition band_step :: "int \<Rightarrow> real list \<Rightarrow> real \<Rightarrow> int \<Rightarrow> real list list \<Rightarrow> error + real list list" where
  "band_step ncols hz sr m fbank =
     ebind (bin_index ncols hz sr (m - 1)) (\<lambda>low.
     ebind (bin_index ncols hz sr m) (\<lambda>center.
     ebind (bin_index ncols hz sr (m + 1)) (\<lambda>high.
       fill_band m low center high fbank)))"

text \<open>Lines 42--66.\<close>

definition filterbank :: "int \<Rightarrow> int \<Rightarrow> real \<Rightarrow> real \<Rightarrow> real \<Rightarrow> error + real list list" where
  "filterbank nfft nb lf hf sr =
     ebind (hz_freq lf hf sr nb) (\<lambda>hz.
     ebind (np_zeros nb (nfft div 2 + 1)) (\<lambda>fbank0.
       for_each [1 .. nb] (band_step (nfft div 2 + 1) hz sr) fbank0))"

section \<open>Band-energy fingerprint: log energies (lines 68--72) and the whole function\<close>

text \<open>
  \<^verbatim>\<open>np.dot(power, fbank.T)\<close>; both factors have \<^verbatim>\<open>fft_points // 2 + 1\<close> columns, so the
  shapes always agree.
\<close>

definition np_dot_T :: "real list list \<Rightarrow> real list list \<Rightarrow> real list list" where
  "np_dot_T pw fbank =
     map (\<lambda>p. map (\<lambda>w. sum_list (map (\<lambda>(x, y). x * y) (zip p w))) fbank) pw"

definition log_energy :: "real \<Rightarrow> real" where
  "log_energy x = 20 * max (1 / 10 ^ 5) (log 10 (if x = 0 then 1 / 2 ^ 52 else x))"

text \<open>Line 71: every column loses its mean over the frames, and \<open>1e-8\<close>.\<close>

definition column_mean :: "real list list \<Rightarrow> nat \<Rightarrow> real" where
  "column_mean a j = sum_list (map (\<lambda>row. row ! j) a) / real (length a)"

definition mean_normalize :: "real list list \<Rightarrow> real list list" where
  "mean_normalize a =
     map (\<lambda>row. map (\<lambda>j. row ! j - (column_mean a j + 1 / 10 ^ 8)) [0 ..< length row]) a"

text \<open>Lines 37--72: the energy matrix \<^verbatim>\<open>energy\<close> of the frames.\<close>

definition fbe_energy :: "fbe_args \<Rightarrow> real \<Rightarrow> real list list \<Rightarrow> error + real list list" where
  "fbe_energy a sr frames =
     ebind (power_spectrum frames (fft_points a)) (\<lambda>pw.
     ebind (filterbank (fft_points a) (n_bands a) (low_freq a) (high_freq a) sr) (\<lambda>fbank.
       Inr (mean_normalize (map (map log_energy) (np_dot_T pw fbank)))))"

text \<open>
  The function of line 12. Lines 83--89 only draw \<^verbatim>\<open>fp\<close> when \<^verbatim>\<open>display\<close> is set; the
  value returned at line 91 is the same either way, and the drawing is not modelled.
\<close>

definition extractFBEFingerprinting ::
  "collaborators \<Rightarrow> fbe_args \<Rightarrow> real list \<Rightarrow> real \<Rightarrow> error + real list list" where
  "extractFBEFingerprinting col a samples sr =
     ebind (fbe_frames col a samples sr) (\<lambda>frames.
     ebind (fbe_energy a sr frames) (\<lambda>energy.
       bit_derivation (length frames) (n_bands a) energy))"

section \<open>Landmark fingerprint (lines 94--137)\<close>

text \<open>
  \<^verbatim>\<open>np.argmax\<close> of a flattened array: the index of the first occurrence of the maximum;
  an empty array raises \<^verbatim>\<open>ValueError\<close>. The scan keeps the index and the value of the
  best entry so far and replaces them on a strictly larger entry only.
\<close>

fun argmax_scan :: "real list \<Rightarrow> nat \<Rightarrow> nat \<Rightarrow> real \<Rightarrow> nat" where
  "argmax_scan [] pos best bv = best"
| "argmax_scan (x # xs) pos best bv =
     (if bv < x then argmax_scan xs (Suc pos) pos x else argmax_scan xs (Suc pos) best bv)"

definition np_argmax :: "real list \<Rightarrow> error + nat" where
  "np_argmax xs = (case xs of [] \<Rightarrow> Inl ValueError | x # rest \<Rightarrow> Inr (argmax_scan rest 1 0 x))"

text \<open>Line 123: \<^verbatim>\<open>spectogram[i:i+height, j:j+width]\<close> for \<open>i, j \<ge> 0\<close> and positive sizes.\<close>

definition sub_matrix :: "real list list \<Rightarrow> nat \<Rightarrow> nat \<Rightarrow> nat \<Rightarrow> nat \<Rightarrow> real list list" where
  "sub_matrix s i j h w = map (\<lambda>row. take w (drop j row)) (take h (drop i s))"

text \<open>
  Lines 123--126: the coordinates \<open>(x, y)\<close> of the peak of the tile at \<open>(i, j)\<close>.
  \<^verbatim>\<open>np.unravel_index\<close> turns the flat index into a row and a column of the tile, whose
  row length is \<^verbatim>\<open>sub_matrix.shape[1]\<close>.
\<close>

definition tile_peak :: "real list list \<Rightarrow> nat \<Rightarrow> nat \<Rightarrow> nat \<Rightarrow> nat \<Rightarrow> error + nat \<times> nat" where
  "tile_peak s h w i j =
     (let sub = sub_matrix s i j h w in
      ebind (np_argmax (concat sub)) (\<lambda>idx.
        Inr (i + idx div length (sub ! 0), j + idx mod length (sub ! 0))))"

text \<open>Lines 123--127: one iteration of the inner loop.\<close>

definition mark_tile :: "real list list \<Rightarrow> nat \<Rightarrow> nat \<Rightarrow> nat \<Rightarrow> nat \<Rightarrow> real list list \<Rightarrow> error + real list list" where
  "mark_tile s h w i j fp =
     ebind (tile_peak s h w i j) (\<lambda>p. setitem2 fp (int (fst p)) (int (snd p)) 1)"

text \<open>
  Lines 118--127 on the magnitude spectrogram. A step of 0 makes \<^verbatim>\<open>range\<close> raise
  \<^verbatim>\<open>ValueError\<close>, a negative step makes the loop empty; inside the loops \<open>height\<close> and
  \<open>width\<close> are positive. \<^verbatim>\<open>len(spectogram[0])\<close> is evaluated in each outer iteration.
\<close>

definition landmarks :: "real list list \<Rightarrow> int \<Rightarrow> int \<Rightarrow> error + real list list" where
  "landmarks s h w =
     ebind (py_range_step (length s) h) (\<lambda>rows.
       for_each rows
         (\<lambda>i fp. ebind (py_range_step (length (s ! 0)) w) (\<lambda>cols.
                    for_each cols (\<lambda>j. mark_tile s (nat h) (nat w) i j) fp))
         (map (\<lambda>row. replicate (length row) 0) s))"

text \<open>Lines 109--117: the magnitude spectrogram.\<close>

definition landmark_spectrogram ::
  "collaborators \<Rightarrow> landmark_args \<Rightarrow> real list \<Rightarrow> real \<Rightarrow> error + real list list" where
  "landmark_spectrogram col a samples sr =
     ebind (if normalize a then normalization col samples else Inr samples) (\<lambda>s1.
     ebind (preEmphasis col s1 sr) (\<lambda>s2.
     ebind (stft col s2 sr (fft_points a) (window_length a)
              (hop_length (overlapping a) (window_length a)) (window_type a)) (\<lambda>spectogram.
       Inr (map (map cmod) spectogram))))"

text \<open>
  The function of line 94; as in the other function, the drawing of lines 129--135 is
  not modelled.
\<close>

definition extractLandmarksFingerprinting ::
  "collaborators \<Rightarrow> landmark_args \<Rightarrow> real list \<Rightarrow> real \<Rightarrow> error + real list list" where
  "extractLandmarksFingerprinting col a samples sr =
     ebind (landmark_spectrogram col a samples sr) (\<lambda>s. landmarks s (height a) (width a))"

section \<open>Notions used in the statements\<close>

text \<open>A matrix with \<open>R\<close> rows of \<open>C\<close> entries each, as every two-dimensional numpy array is.\<close>

definition shaped :: "nat \<Rightarrow> nat \<Rightarrow> 'a list list \<Rightarrow> bool" where
  "shaped R C a \<longleftrightarrow> length a = R \<and> (\<forall>row \<in> set a. length row = C)"

text \<open>
  The value line 78--81 give to \<^verbatim>\<open>fp[i][j]\<close> when every read is in range: the last read is
  column \<open>j - 1\<close>, and the last column of the row when \<open>j = 0\<close>.
\<close>

definition bit_rule :: "'a::{minus,zero,ord} list list \<Rightarrow> nat \<Rightarrow> nat \<Rightarrow> real" where
  "bit_rule E i j =
     (if E ! i ! j - E ! i ! (j + 1)
           - (E ! (i - 1) ! j - E ! (i - 1) ! (if j = 0 then length (E ! (i - 1)) - 1 else j - 1)) > 0
      then 1 else 0)"

text \<open>A call that returns a value instead of raising.\<close>

definition returns :: "error + 'a \<Rightarrow> bool" where
  "returns r = (case r of Inl e \<Rightarrow> False | Inr v \<Rightarrow> True)"

text \<open>The default values of the keyword parameters of line 12.\<close>

definition default_fbe_args :: fbe_args where
  "default_fbe_args =
     \<lparr>normalize = False, fft_points = 512, overlapping = PyInt 0, window_length = 240,
      window_type = ''Rectangle'', display = False, n_bands = 33, low_freq = 300,
      high_freq = 2000\<rparr>"

text \<open>
  Collaborators for the examples: no normalisation and no pre-emphasis, the first two
  consecutive frames of the requested length, and a two-by-three spectrogram.
\<close>

definition example_collaborators :: collaborators where
  "example_collaborators =
     \<lparr>normalization = (\<lambda>s. Inr s),
      preEmphasis = (\<lambda>s sr. Inr s),
      frame = (\<lambda>s wl hop. Inr [take (nat wl) s, take (nat wl) (drop (nat wl) s)]),
      stft = (\<lambda>s sr n wl hop wt. Inr [[1, 2, \<i>], [0, 2, 3]])\<rparr>"

text \<open>
  The five-region rule in the words of the specification: \<open>w\<close> is a weight the rule allows
  for bin \<open>k\<close> at \<open>delta = center - k\<close>.
\<close>

definition five_region_weight :: "real \<Rightarrow> real \<Rightarrow> real \<Rightarrow> bool" where
  "five_region_weight delta k w \<longleftrightarrow>
     delta < - 1.3 \<and> w = 0
     \<or> - 1.3 \<le> delta \<and> delta \<le> - 0.5 \<and> w = 10 powr (2.5 * (k + 0.5))
     \<or> - 0.5 \<le> delta \<and> delta \<le> 0.5 \<and> w = 1
     \<or> 0.5 \<le> delta \<and> delta \<le> 2.5 \<and> w = 10 powr (- 0.1 * (k - 0.5))
     \<or> 2.5 < delta \<and> w = 0"

text \<open>
  The cells of the tile in tile row \<open>ti\<close> and tile column \<open>tj\<close> of an \<open>F\<close> by \<open>T\<close> matrix
  cut into tiles of \<open>h\<close> rows and \<open>w\<close> columns, the tiles at the far edges being smaller.
\<close>

definition tile_cell :: "nat \<Rightarrow> nat \<Rightarrow> nat \<Rightarrow> nat \<Rightarrow> nat \<Rightarrow> nat \<Rightarrow> nat \<Rightarrow> nat \<Rightarrow> bool" where
  "tile_cell h w F T ti tj x y \<longleftrightarrow>
     ti * h \<le> x \<and> x < ti * h + h \<and> x < F \<and> tj * w \<le> y \<and> y < tj * w + w \<and> y < T"

text \<open>
  \<open>(x, y)\<close> holds the maximum of its tile and is the first cell to do so when the tile is
  read row by row.
\<close>

definition first_max_of_tile ::
  "real list list \<Rightarrow> nat \<Rightarrow> nat \<Rightarrow> nat \<Rightarrow> nat \<Rightarrow> nat \<Rightarrow> nat \<Rightarrow> nat \<Rightarrow> nat \<Rightarrow> bool" where
  "first_max_of_tile s h w F T ti tj x y \<longleftrightarrow>
     tile_cell h w F T ti tj x y
     \<and> (\<forall>x' y'. tile_cell h w F T ti tj x' y' \<longrightarrow>
           s ! x' ! y' \<le> s ! x ! y
           \<and> (x' < x \<or> x' = x \<and> y' < y \<longrightarrow> s ! x' ! y' < s ! x ! y))"

text \<open>The arguments of line 94 at their defaults, with tiles of one row and two columns.\<close>

definition example_landmark_args :: landmark_args where
  "example_landmark_args =
     \<lparr>normalize = False, fft_points = 512, overlapping = PyInt 0, window_length = 240,
      window_type = ''Rectangle'', display = False, height = 1, width = 2\<rparr>"

section \<open>Loops and array accesses\<close>

lemma ebind_simps [simp]: "ebind (Inl e) f = Inl e" "ebind (Inr a) f = f a"
  by (simp_all add: ebind_def)

lemma for_each_append:
  "for_each (xs @ ys) body s = ebind (for_each xs body s) (for_each ys body)"
  by (induction xs arbitrary: s) (auto simp: ebind_def split: sum.splits)

lemma for_each_cong:
  "(\<And>t s. t \<in> set ts \<Longrightarrow> body t s = body' t s) \<Longrightarrow> for_each ts body s = for_each ts body' s"
  by (induction ts arbitrary: s) (auto simp: ebind_def split: sum.splits)

lemma for_each_pairs:
  "for_each (map (Pair i) js) (\<lambda>p. body (fst p) (snd p)) s = for_each js (body i) s"
  by (induction js arbitrary: s) (auto simp: ebind_def split: sum.splits)

lemma for_each_nested:
  "for_each is (\<lambda>i. for_each js (body i)) s
     = for_each (concat (map (\<lambda>i. map (Pair i) js) is)) (\<lambda>p. body (fst p) (snd p)) s"
proof (induction "is" arbitrary: s)
  case Nil
  show ?case by simp
next
  case (Cons i rest)
  show ?case
    by (simp add: for_each_append for_each_pairs Cons.IH cong: sum.case_cong)
       (simp add: ebind_def Cons.IH split: sum.splits)
qed

lemma axis_index_nat [simp]: "k < n \<Longrightarrow> axis_index n (int k) = Inr k"
  by (simp add: axis_index_def)

lemma setitem2_nat:
  "r < length a \<Longrightarrow> c < length (a ! r) \<Longrightarrow> setitem2 a (int r) (int c) v = Inr (a[r := (a ! r)[c := v]])"
  by (simp add: setitem2_def)

lemma fill_loop:
  assumes "shaped R C a" and "\<forall>t \<in> set ts. fst (pos t) < R \<and> snd (pos t) < C"
  shows "\<exists>a'. for_each ts (\<lambda>t a. setitem2 a (int (fst (pos t))) (int (snd (pos t))) (v t)) a = Inr a'
           \<and> shaped R C a'
           \<and> (\<forall>r < R. \<forall>c < C.
                 (if (r, c) \<in> pos ` set ts then \<exists>t \<in> set ts. pos t = (r, c) \<and> a' ! r ! c = v t
                  else a' ! r ! c = a ! r ! c))"
  using assms
proof (induction ts arbitrary: a)
  case Nil
  then show ?case by simp
next
  case (Cons t ts)
  let ?r = "fst (pos t)" and ?c = "snd (pos t)"
  let ?b = "a[?r := (a ! ?r)[?c := v t]]"
  from Cons.prems have rc: "?r < R" "?c < C" by auto
  from Cons.prems(1) rc have step: "setitem2 a (int ?r) (int ?c) (v t) = Inr ?b"
    by (intro setitem2_nat) (auto simp: shaped_def)
  have sb: "shaped R C ?b"
    using Cons.prems(1) rc by (auto simp: shaped_def set_conv_nth nth_list_update)
  from Cons.IH[OF sb] Cons.prems(2) obtain a' where
    a': "for_each ts (\<lambda>t a. setitem2 a (int (fst (pos t))) (int (snd (pos t))) (v t)) ?b = Inr a'"
      "shaped R C a'"
      "\<forall>r < R. \<forall>c < C.
                 (if (r, c) \<in> pos ` set ts then \<exists>t \<in> set ts. pos t = (r, c) \<and> a' ! r ! c = v t
                  else a' ! r ! c = ?b ! r ! c)"
    by auto
  have "\<forall>r < R. \<forall>c < C.
                 (if (r, c) \<in> pos ` set (t # ts) then \<exists>u \<in> set (t # ts). pos u = (r, c) \<and> a' ! r ! c = v u
                  else a' ! r ! c = a ! r ! c)"
  proof (intro allI impI)
    fix r c assume r: "r < R" and c: "c < C"
    from a'(3) r c have h: "(if (r, c) \<in> pos ` set ts then \<exists>t \<in> set ts. pos t = (r, c) \<and> a' ! r ! c = v t
                  else a' ! r ! c = ?b ! r ! c)" by blast
    have la: "length a = R" "length (a ! r) = C" "length (a ! ?r) = C"
      using Cons.prems(1) r rc by (auto simp: shaped_def)
    show "(if (r, c) \<in> pos ` set (t # ts) then \<exists>u \<in> set (t # ts). pos u = (r, c) \<and> a' ! r ! c = v u
                  else a' ! r ! c = a ! r ! c)"
    proof (cases "(r, c) \<in> pos ` set ts")
      case True
      with h show ?thesis by auto
    next
      case False
      with h have e: "a' ! r ! c = ?b ! r ! c" by simp
      show ?thesis
      proof (cases "pos t = (r, c)")
        case True
        then have "?b ! r ! c = v t" using la r c by (simp)
        with e True show ?thesis by auto
      next
        case False
        then have "?b ! r ! c = a ! r ! c" using la r c rc
          by (cases "r = ?r") (auto simp: nth_list_update prod_eq_iff)
        with e False \<open>(r, c) \<notin> pos ` set ts\<close> show ?thesis by auto
      qed
    qed
  qed
  with step a'(1,2) show ?case by auto
qed

section \<open>The bit derivation on a well-shaped energy matrix\<close>

lemma getitem_nat [simp]: "k < length xs \<Longrightarrow> getitem xs (int k) = Inr (xs ! k)"
  by (simp add: getitem_def)

lemma getitem_minus_one [simp]: "0 < length xs \<Longrightarrow> getitem xs (- 1) = Inr (xs ! (length xs - 1))"
  by (cases xs) (simp_all add: getitem_def axis_index_def)

lemma set_index_pairs: "set (concat (map (\<lambda>i. map (Pair i) js) is)) = set is \<times> set js"
  by (induction "is") auto

lemma getitem_pred [simp]:
  "0 < k \<Longrightarrow> k \<le> length xs \<Longrightarrow> getitem xs (int k - 1) = Inr (xs ! (k - 1))"
  using getitem_nat[of "k - 1" xs] by (simp add: of_nat_diff)

lemma getitem2_nat [simp]:
  "i < length a \<Longrightarrow> j < length (a ! i) \<Longrightarrow> getitem2 a (int i) (int j) = Inr (a ! i ! j)"
  by (simp add: getitem2_def)

lemma bit_value_shaped:
  assumes "shaped R C E" and "1 \<le> i" and "i < R" and "j + 1 < C"
  shows "bit_value E (int i) (int j) = Inr (bit_rule E i j)"
proof -
  have len: "length E = R" "length (E ! i) = C" "length (E ! (i - 1)) = C"
    using assms by (auto simp: shaped_def)
  have i1: "int i - 1 = int (i - 1)" using assms(2) by simp
  have a: "getitem2 E (int i) (int j) = Inr (E ! i ! j)"
    using assms len by simp
  have b: "getitem2 E (int i) (int j + 1) = Inr (E ! i ! (j + 1))"
    using assms len getitem2_nat[of i E "j + 1"] by (simp add: add.commute)
  have "getitem2 E (int (i - 1)) (int j) = Inr (E ! (i - 1) ! j)"
    by (rule getitem2_nat) (use assms len in auto)
  then have c: "getitem2 E (int i - 1) (int j) = Inr (E ! (i - 1) ! j)"
    by (simp only: i1)
  have d: "getitem2 E (int i - 1) (int j - 1)
             = Inr (E ! (i - 1) ! (if j = 0 then length (E ! (i - 1)) - 1 else j - 1))"
  proof (cases "j = 0")
    case True
    have "getitem E (int i - 1) = Inr (E ! (i - 1))" using assms len by simp
    moreover have "getitem (E ! (i - 1)) (- 1) = Inr (E ! (i - 1) ! (length (E ! (i - 1)) - 1))"
      using assms len by simp
    ultimately show ?thesis using True by (simp add: getitem2_def)
  next
    case False
    have "getitem2 E (int (i - 1)) (int (j - 1)) = Inr (E ! (i - 1) ! (j - 1))"
      by (rule getitem2_nat) (use assms len in auto)
    moreover from False have "int j - 1 = int (j - 1)" by simp
    ultimately show ?thesis using False by (simp only: i1 if_False)
  qed
  show ?thesis
    unfolding bit_value_def a b c d by (simp add: bit_rule_def)
qed

lemma bit_derivation_shaped:
  assumes "shaped R C E" and "0 < C"
  shows "\<exists>fp. bit_derivation R (int C) E = Inr fp \<and> shaped R (C - 1) fp
           \<and> (\<forall>i < R. \<forall>j < C - 1. fp ! i ! j = (if i = 0 then 0 else bit_rule E i j))"
proof -
  let ?fp0 = "replicate R (replicate (C - 1) (0::real))"
  let ?pairs = "concat (map (\<lambda>i. map (Pair i) [0 ..< C - 1]) [1 ..< R])"
  have z: "np_zeros (int R) (int C - 1) = Inr ?fp0"
    using assms(2) by (simp add: np_zeros_def nat_diff_distrib')
  have lenE: "length E = R" using assms(1) by (simp add: shaped_def)
  have inner: "for_each (py_range 0 (int (length (E ! 0)) - 1))
                 (\<lambda>j fp. ebind (bit_value E (int i) (int j)) (\<lambda>b. setitem2 fp (int i) (int j) b)) s
             = for_each [0 ..< C - 1] (\<lambda>j fp. setitem2 fp (int i) (int j) (bit_rule E i j)) s"
    if "i \<in> set (py_range 1 (int (length E)))" for i s
  proof -
    from that lenE have i: "1 \<le> i" "i < R" by (auto simp: py_range_def)
    then have "length (E ! 0) = C" using assms(1) lenE by (auto simp: shaped_def)
    then have r: "py_range 0 (int (length (E ! 0)) - 1) = [0 ..< C - 1]"
      using assms(2) by (simp add: py_range_def nat_diff_distrib')
    show ?thesis unfolding r
      by (rule for_each_cong) (simp add: bit_value_shaped[OF assms(1) i])
  qed
  have "bit_derivation R (int C) E
          = for_each [1 ..< R]
              (\<lambda>i. for_each [0 ..< C - 1] (\<lambda>j fp. setitem2 fp (int i) (int j) (bit_rule E i j))) ?fp0"
    unfolding bit_derivation_def z ebind_simps
    by (subst for_each_cong[OF inner]) (simp_all add: py_range_def lenE)
  also have "\<dots> = for_each ?pairs
                     (\<lambda>p fp. setitem2 fp (int (fst p)) (int (snd p)) (bit_rule E (fst p) (snd p))) ?fp0"
    by (rule for_each_nested)
  finally have eq: "bit_derivation R (int C) E = for_each ?pairs
                     (\<lambda>p fp. setitem2 fp (int (fst (id p))) (int (snd (id p))) (bit_rule E (fst p) (snd p))) ?fp0"
    by simp
  have s0: "shaped R (C - 1) ?fp0" by (simp add: shaped_def)
  have inr: "\<forall>p \<in> set ?pairs. fst (id p) < R \<and> snd (id p) < C - 1"
    unfolding set_index_pairs by auto
  from fill_loop[OF s0 inr, of "\<lambda>p. bit_rule E (fst p) (snd p)"] obtain fp where
    fp: "for_each ?pairs
           (\<lambda>p fp. setitem2 fp (int (fst (id p))) (int (snd (id p))) (bit_rule E (fst p) (snd p))) ?fp0 = Inr fp"
        "shaped R (C - 1) fp"
        "\<forall>r < R. \<forall>c < C - 1.
           (if (r, c) \<in> id ` set ?pairs then \<exists>t \<in> set ?pairs. id t = (r, c) \<and> fp ! r ! c = bit_rule E (fst t) (snd t)
            else fp ! r ! c = ?fp0 ! r ! c)"
    by blast
  have "\<forall>i < R. \<forall>j < C - 1. fp ! i ! j = (if i = 0 then 0 else bit_rule E i j)"
  proof (intro allI impI)
    fix i j assume ij: "i < R" "j < C - 1"
    from fp(3) ij have h: "(if (i, j) \<in> id ` set ?pairs then \<exists>t \<in> set ?pairs. id t = (i, j) \<and> fp ! i ! j = bit_rule E (fst t) (snd t)
            else fp ! i ! j = ?fp0 ! i ! j)" by blast
    have mem: "(i, j) \<in> id ` set ?pairs \<longleftrightarrow> i \<noteq> 0"
      unfolding set_index_pairs using ij by auto
    show "fp ! i ! j = (if i = 0 then 0 else bit_rule E i j)"
    proof (cases "i = 0")
      case True
      with h mem ij show ?thesis by simp
    next
      case False
      with h mem obtain t where "id t = (i, j)" "fp ! i ! j = bit_rule E (fst t) (snd t)" by auto
      then show ?thesis using False by auto
    qed
  qed
  with eq fp(1,2) show ?thesis by auto
qed

section \<open>Shapes along the band-energy pipeline\<close>

lemma for_each_invariant:
  assumes "for_each ts body s = Inr s'" and "P s"
    and "\<And>t u u'. t \<in> set ts \<Longrightarrow> P u \<Longrightarrow> body t u = Inr u' \<Longrightarrow> P u'"
  shows "P s'"
  using assms
proof (induction ts arbitrary: s)
  case Nil
  then show ?case by simp
next
  case (Cons t ts)
  from Cons.prems(1) obtain u where u: "body t s = Inr u" "for_each ts body u = Inr s'"
    by (auto simp: ebind_def split: sum.splits)
  have "P u" using Cons.prems(2,3) u(1) by auto
  then show ?case using Cons.IH[OF u(2)] Cons.prems(3) by auto
qed

lemma axis_index_less: "axis_index n i = Inr k \<Longrightarrow> k < n"
  by (auto simp: axis_index_def split: if_splits)

lemma setitem2_shaped:
  assumes "setitem2 a i j v = Inr a'" and "shaped R C a"
  shows "shaped R C a'"
proof -
  from assms(1) obtain r c where "axis_index (length a) i = Inr r" "a' = a[r := (a ! r)[c := v]]"
    by (auto simp: setitem2_def ebind_def split: sum.splits)
  with assms(2) show ?thesis
    by (auto simp: shaped_def dest!: axis_index_less set_update_subset_insert[THEN subsetD])
qed

lemma fill_band_shaped:
  assumes "fill_band m low center high fb = Inr fb'" and "shaped R C fb"
  shows "shaped R C fb'"
  using assms(1)[unfolded fill_band_def] assms(2)
  by (rule for_each_invariant) (auto simp: ebind_def split: sum.splits dest: setitem2_shaped)

lemma band_step_shaped:
  assumes "band_step ncols hz sr m fb = Inr fb'" and "shaped R C fb"
  shows "shaped R C fb'"
  using assms
  by (auto simp: band_step_def bin_index_def ebind_def split: sum.splits dest: fill_band_shaped)

lemma np_zeros_shaped: "np_zeros r c = Inr z \<Longrightarrow> shaped (nat r) (nat c) z \<and> 0 \<le> r \<and> 0 \<le> c"
  by (auto simp: np_zeros_def shaped_def split: if_splits)

lemma filterbank_shaped:
  assumes "filterbank nfft nb lf hf sr = Inr fb"
  shows "shaped (nat nb) (nat (nfft div 2 + 1)) fb \<and> 0 \<le> nb"
proof -
  from assms obtain hz z where
    z: "np_zeros nb (nfft div 2 + 1) = Inr z"
    and loop: "for_each [1 .. nb] (band_step (nfft div 2 + 1) hz sr) z = Inr fb"
    by (auto simp: filterbank_def ebind_def split: sum.splits)
  from np_zeros_shaped[OF z] have s: "shaped (nat nb) (nat (nfft div 2 + 1)) z" and nb: "0 \<le> nb"
    by auto
  have "shaped (nat nb) (nat (nfft div 2 + 1)) fb"
    using loop s by (rule for_each_invariant) (rule band_step_shaped)
  with nb show ?thesis by simp
qed

lemma power_spectrum_length: "power_spectrum frames n = Inr pw \<Longrightarrow> length pw = length frames"
  by (auto simp: power_spectrum_def np_fft_def ebind_def split: if_splits)

lemma power_spectrum_returns: "1 \<le> n \<Longrightarrow> \<exists>pw. power_spectrum frames n = Inr pw"
  by (simp add: power_spectrum_def np_fft_def)

lemma mean_normalize_shaped: "shaped R C a \<Longrightarrow> shaped R C (mean_normalize a)"
  by (auto simp: shaped_def mean_normalize_def)

lemma fbe_energy_shaped:
  assumes "fbe_energy a sr frames = Inr E"
  shows "shaped (length frames) (nat (n_bands a)) E \<and> 0 \<le> n_bands a"
proof -
  from assms obtain pw fb where pw: "power_spectrum frames (fft_points a) = Inr pw"
    and fb: "filterbank (fft_points a) (n_bands a) (low_freq a) (high_freq a) sr = Inr fb"
    and E: "E = mean_normalize (map (map log_energy) (np_dot_T pw fb))"
    by (auto simp: fbe_energy_def ebind_def split: sum.splits)
  from filterbank_shaped[OF fb] have "length fb = nat (n_bands a)" "0 \<le> n_bands a"
    by (auto simp: shaped_def)
  moreover have "shaped (length pw) (length fb) (map (map log_energy) (np_dot_T pw fb))"
    by (auto simp: shaped_def np_dot_T_def)
  ultimately show ?thesis
    unfolding E using power_spectrum_length[OF pw] mean_normalize_shaped by metis
qed

lemma fbe_energy_returns:
  assumes "1 \<le> fft_points a"
    and "filterbank (fft_points a) (n_bands a) (low_freq a) (high_freq a) sr = Inr fb"
  shows "\<exists>E. fbe_energy a sr frames = Inr E"
  using power_spectrum_returns[OF assms(1), of frames] assms(2)
  by (auto simp: fbe_energy_def)

text \<open>What the whole function returns once the frames and the filterbank are there.\<close>

lemma extractFBE_result:
  assumes "fbe_frames col a samples sr = Inr frames"
    and "fbe_energy a sr frames = Inr E"
    and "1 \<le> n_bands a"
  shows "\<exists>fp. extractFBEFingerprinting col a samples sr = Inr fp
           \<and> shaped (length frames) (nat (n_bands a) - 1) fp
           \<and> (\<forall>i < length frames. \<forall>j < nat (n_bands a) - 1.
                 fp ! i ! j = (if i = 0 then 0 else bit_rule E i j))"
proof -
  from fbe_energy_shaped[OF assms(2)] have s: "shaped (length frames) (nat (n_bands a)) E" by simp
  have c: "0 < nat (n_bands a)" "int (nat (n_bands a)) = n_bands a" using assms(3) by auto
  from bit_derivation_shaped[OF s c(1)] show ?thesis
    unfolding c(2) by (simp add: extractFBEFingerprinting_def assms(1,2))
qed

section \<open>When the filterbank is built without an exception\<close>

lemma for_each_returns:
  assumes "P s"
    and "\<And>t u. t \<in> set ts \<Longrightarrow> P u \<Longrightarrow> \<exists>u'. body t u = Inr u' \<and> P u'"
  shows "\<exists>s'. for_each ts body s = Inr s' \<and> P s'"
  using assms
proof (induction ts arbitrary: s)
  case Nil
  then show ?case by simp
next
  case (Cons t ts)
  from Cons.prems obtain u where u: "body t s = Inr u" "P u" by fastforce
  from Cons.IH[OF u(2)] Cons.prems(2) obtain s' where "for_each ts body u = Inr s'" "P s'"
    by fastforce
  with u show ?case by simp
qed

lemma band_weight_returns:
  assumes "0 \<le> k" and "k \<le> 122"
  shows "\<exists>w. band_weight c k = Inr w"
proof -
  have "real_of_int k \<le> 122" "0 \<le> real_of_int k" using assms by simp_all
  then have "\<not> 308.2547 < 2.5 * (real_of_int k + 0.5)"
    and "\<not> 308.2547 < - 0.1 * (real_of_int k - 0.5)"
    by (simp_all add: algebra_simps)
  then show ?thesis
    unfolding band_weight_def Let_def py_pow10_def by (simp only: if_False) simp
qed

lemma setitem2_returns:
  assumes "shaped R C a" and "0 \<le> i" and "i < int R" and "0 \<le> j" and "j < int C"
  shows "\<exists>a'. setitem2 a i j v = Inr a'"
proof -
  have "nat i < length a" "length (a ! nat i) = C"
    using assms by (auto simp: shaped_def)
  then show ?thesis using assms by (simp add: setitem2_def axis_index_def)
qed

lemma fill_band_returns:
  assumes "shaped R C (fb :: real list list)" and "1 \<le> m" and "m \<le> int R"
    and "0 \<le> low" and "high \<le> int C" and "high \<le> 123"
  shows "\<exists>fb'. fill_band m low center high fb = Inr fb' \<and> shaped R C fb'"
  unfolding fill_band_def
proof (rule for_each_returns[where P = "shaped R C"])
  show "shaped R C fb" by fact
next
  fix k and u :: "real list list"
  assume k: "k \<in> set [low .. high - 1]" and u: "shaped R C u"
  then have kb: "0 \<le> k" "k \<le> 122" "k < int C" using assms by auto
  from band_weight_returns[OF kb(1,2)] obtain w where w: "band_weight center k = Inr w" by blast
  from setitem2_returns[OF u, of "m - 1" k w] assms kb obtain u' where
    u': "setitem2 u (m - 1) k w = Inr u'" by auto
  with setitem2_shaped[OF u' u] w
  show "\<exists>u'. ebind (band_weight center k) (setitem2 u (m - 1) k) = Inr u' \<and> shaped R C u'"
    by simp
qed

lemma py_int_bounds:
  assumes "0 \<le> x" and "x \<le> real_of_int c" and "x < 123"
  shows "0 \<le> py_int x" and "py_int x \<le> c" and "py_int x \<le> 123"
  using assms by (auto simp: py_int_def floor_le_iff le_floor_iff)

lemma getitem_int: "0 \<le> i \<Longrightarrow> i < int (length xs) \<Longrightarrow> getitem xs i = Inr (xs ! nat i)"
  by (simp add: getitem_def axis_index_def)

lemma np_linspace_between:
  assumes "2 \<le> num" and "lo \<le> start" and "start \<le> hi" and "lo \<le> stop" and "stop \<le> hi"
  shows "\<exists>xs. np_linspace start stop num = Inr xs \<and> length xs = nat num
           \<and> (\<forall>x \<in> set xs. lo \<le> x \<and> x \<le> hi)"
proof -
  let ?f = "\<lambda>t. start + real t * ((stop - start) / real_of_int (num - 1))"
  have eq: "np_linspace start stop num = Inr (map ?f [0 ..< nat num])"
    using assms(1) by (simp add: np_linspace_def)
  have "lo \<le> ?f t \<and> ?f t \<le> hi" if "t < nat num" for t
  proof -
    define c where "c = real t / real_of_int (num - 1)"
    have n: "0 < real_of_int (num - 1)" using assms(1) by simp
    have "real t \<le> real_of_int (num - 1)" using that assms(1) by (simp add: nat_less_iff)
    then have c: "0 \<le> c" "c \<le> 1" using n by (simp_all add: c_def)
    have f: "?f t = start + c * (stop - start)" by (simp add: c_def)
    have "?f t = (1 - c) * start + c * stop" unfolding f by (simp add: algebra_simps)
    moreover have "(1 - c) * lo + c * lo \<le> (1 - c) * start + c * stop"
      using c assms by (intro add_mono mult_left_mono) auto
    moreover have "(1 - c) * start + c * stop \<le> (1 - c) * hi + c * hi"
      using c assms by (intro add_mono mult_left_mono) auto
    ultimately show ?thesis by (simp add: algebra_simps)
  qed
  then show ?thesis unfolding eq by auto
qed

lemma arsinh_le_iff: "arsinh x \<le> arsinh y \<longleftrightarrow> x \<le> (y::real)"
  using arsinh_less_iff_real[of y x] by (simp only: not_less[symmetric])

lemma bark_axis_between:
  assumes "0 \<le> lf" and "lf \<le> hf" and "0 < sr"
  shows "0 \<le> bark_low lf" "bark_low lf \<le> bark hf" "0 \<le> bark_high hf sr" "bark_high hf sr \<le> bark hf"
proof -
  have "0 \<le> arsinh (lf / 600)" "0 \<le> arsinh (hf / 600)"
    using arsinh_le_iff[of 0 "lf / 600"] arsinh_le_iff[of 0 "hf / 600"] assms by simp_all
  moreover have "arsinh (lf / 600) \<le> arsinh (hf / 600)"
    using assms by (simp add: arsinh_le_iff)
  ultimately show "0 \<le> bark_low lf" "bark_low lf \<le> bark hf" "0 \<le> bark_high hf sr" "bark_high hf sr \<le> bark hf"
    using assms by (simp_all add: bark_low_def bark_high_def bark_def)
qed

lemma hz_between:
  assumes "0 \<le> b" and "b \<le> bark hf"
  shows "0 \<le> 600 * sinh (b / 6)" and "600 * sinh (b / 6) \<le> hf"
proof -
  show "0 \<le> 600 * sinh (b / 6)" using assms(1) by simp
  have "b / 6 \<le> arsinh (hf / 600)" using assms(2) by (simp add: bark_def)
  then have "sinh (b / 6) \<le> sinh (arsinh (hf / 600))" by (simp only: sinh_real_le_iff)
  then show "600 * sinh (b / 6) \<le> hf" by simp
qed

lemma int_of_bin_returns:
  assumes "0 < sr" and "0 \<le> ncols" and "0 \<le> h" and "h \<le> hf" and "hf \<le> sr"
    and "real_of_int ncols * hf < 123 * sr"
  shows "\<exists>b. int_of_bin ncols h sr = Inr b \<and> 0 \<le> b \<and> b \<le> ncols \<and> b \<le> 123"
proof -
  let ?x = "real_of_int ncols * h / sr"
  have nc: "0 \<le> real_of_int ncols" using assms(2) by simp
  have x0: "0 \<le> ?x" using assms nc by simp
  have "real_of_int ncols * h \<le> real_of_int ncols * sr"
    using assms nc by (intro mult_left_mono) auto
  then have x1: "?x \<le> real_of_int ncols" using assms(1) by (simp add: field_simps)
  have "real_of_int ncols * h \<le> real_of_int ncols * hf"
    using assms nc by (intro mult_left_mono) auto
  then have x2: "?x < 123" using assms(1,6) by (simp add: field_simps)
  from py_int_bounds[OF x0 x1 x2] assms(1) show ?thesis by (simp add: int_of_bin_def)
qed

lemma band_step_returns:
  assumes "shaped (nat nb) (nat ncols) (fb :: real list list)" and "length hz = nat (nb + 2)"
    and "1 \<le> m" and "m \<le> nb" and "\<forall>h \<in> set hz. 0 \<le> h \<and> h \<le> hf"
    and "0 < sr" and "0 \<le> ncols" and "hf \<le> sr" and "real_of_int ncols * hf < 123 * sr"
  shows "\<exists>fb'. band_step ncols hz sr m fb = Inr fb' \<and> shaped (nat nb) (nat ncols) fb'"
proof -
  have bin: "\<exists>b. bin_index ncols hz sr i = Inr b \<and> 0 \<le> b \<and> b \<le> ncols \<and> b \<le> 123"
    if "0 \<le> i" "i \<le> nb + 1" for i
  proof -
    have "i < int (length hz)" using that assms(2) by simp
    with that have g: "getitem hz i = Inr (hz ! nat i)" "hz ! nat i \<in> set hz"
      by (simp_all add: getitem_int)
    with assms(5) have "0 \<le> hz ! nat i" "hz ! nat i \<le> hf" by auto
    from int_of_bin_returns[OF assms(6,7) this assms(8,9)] g(1) show ?thesis
      by (simp add: bin_index_def)
  qed
  from bin[of "m - 1"] assms(3,4) obtain low where
    low: "bin_index ncols hz sr (m - 1) = Inr low" "0 \<le> low" by auto
  from bin[of m] assms(3,4) obtain center where
    center: "bin_index ncols hz sr m = Inr center" by auto
  from bin[of "m + 1"] assms(3,4) obtain high where
    high: "bin_index ncols hz sr (m + 1) = Inr high" "high \<le> ncols" "high \<le> 123"
    by auto
  have "m \<le> int (nat nb)" "high \<le> int (nat ncols)" using assms(4,7) high(2) by auto
  from fill_band_returns[OF assms(1,3) this(1) low(2) this(2) high(3), of center]
  show ?thesis by (simp add: band_step_def low(1) center high(1))
qed

text \<open>
  The filterbank is built without an exception for a band inside \<open>[0, sr]\<close> whose highest
  bin stays below 123: that covers the defaults (512 points, 300 to 2000 Hz) at 8 kHz and
  above.
\<close>

lemma filterbank_returns:
  assumes "0 \<le> nb" and "0 \<le> lf" and "lf \<le> hf" and "hf \<le> sr" and "0 < sr"
    and "0 \<le> nfft div 2 + 1" and "real_of_int (nfft div 2 + 1) * hf < 123 * sr"
  shows "\<exists>fb. filterbank nfft nb lf hf sr = Inr fb"
proof -
  let ?nc = "nfft div 2 + 1"
  from bark_axis_between[OF assms(2,3,5)] assms(1)
       np_linspace_between[of "nb + 2" 0 "bark_low lf" "bark hf" "bark_high hf sr"]
  obtain bf where bf: "np_linspace (bark_low lf) (bark_high hf sr) (nb + 2) = Inr bf"
    "length bf = nat (nb + 2)" "\<forall>b \<in> set bf. 0 \<le> b \<and> b \<le> bark hf"
    by auto
  let ?hz = "map (\<lambda>b. 600 * sinh (b / 6)) bf"
  have hz: "length ?hz = nat (nb + 2)" "\<forall>h \<in> set ?hz. 0 \<le> h \<and> h \<le> hf"
    using bf(2,3) hz_between by auto
  let ?z = "replicate (nat nb) (replicate (nat ?nc) (0::real))"
  have z: "np_zeros nb ?nc = Inr ?z" using assms(1,6) by (simp add: np_zeros_def)
  have sz: "shaped (nat nb) (nat ?nc) ?z" by (simp add: shaped_def)
  have "\<exists>fb. for_each [1 .. nb] (band_step ?nc ?hz sr) ?z = Inr fb \<and> shaped (nat nb) (nat ?nc) fb"
  proof (rule for_each_returns[where P = "shaped (nat nb) (nat ?nc)", OF sz])
    fix m and u :: "real list list"
    assume "m \<in> set [1 .. nb]" and u: "shaped (nat nb) (nat ?nc) u"
    then have m: "1 \<le> m" "m \<le> nb" by auto
    from band_step_returns[OF u hz(1) m hz(2) assms(5,6,4,7)]
    show "\<exists>u'. band_step ?nc ?hz sr m u = Inr u' \<and> shaped (nat nb) (nat ?nc) u'" .
  qed
  then show ?thesis by (auto simp: filterbank_def hz_freq_def bf(1) z)
qed

section \<open>The band-energy fingerprint as a whole\<close>

lemma returns_iff: "returns r \<longleftrightarrow> (\<exists>v. r = Inr v)"
  by (cases r) (simp_all add: returns_def)

lemma extractFBE_bits:
  assumes "fbe_frames col a samples sr = Inr frames"
    and "1 \<le> fft_points a" and "1 \<le> n_bands a"
    and "returns (filterbank (fft_points a) (n_bands a) (low_freq a) (high_freq a) sr)"
  shows "\<exists>E fp. fbe_energy a sr frames = Inr E
           \<and> shaped (length frames) (nat (n_bands a)) E
           \<and> extractFBEFingerprinting col a samples sr = Inr fp
           \<and> shaped (length frames) (nat (n_bands a) - 1) fp
           \<and> (\<forall>i < length frames. \<forall>j < nat (n_bands a) - 1.
                 fp ! i ! j = (if i = 0 then 0 else bit_rule E i j))"
proof -
  from assms(4) obtain fb where
    "filterbank (fft_points a) (n_bands a) (low_freq a) (high_freq a) sr = Inr fb"
    by (auto simp: returns_iff)
  from fbe_energy_returns[OF assms(2) this] obtain E where E: "fbe_energy a sr frames = Inr E"
    by blast
  from extractFBE_result[OF assms(1) E assms(3)] fbe_energy_shaped[OF E] E
  show ?thesis by blast
qed

lemma default_filterbank_returns: "returns (filterbank 512 33 300 2000 16000)"
  using filterbank_returns[of 33 300 2000 16000 512] by (simp add: returns_iff)

lemma example_frames:
  "fbe_frames example_collaborators (default_fbe_args\<lparr>window_length := 2\<rparr>) [1, 0, 0, 1] 16000
     = Inr [[1, 0], [0, 1]]"
  by (simp add: fbe_frames_def example_collaborators_def default_fbe_args_def)

lemma arsinh_le_double:
  assumes "0 \<le> (x::real)"
  shows "arsinh x \<le> 2 * x"
proof -
  have "sqrt (x\<^sup>2 + 1) \<le> x + 1"
    using assms by (intro real_le_lsqrt) (simp_all add: power2_eq_square algebra_simps)
  moreover have "ln (x + sqrt (x\<^sup>2 + 1)) \<le> x + sqrt (x\<^sup>2 + 1) - 1"
    using arsinh_real_aux[of x] by (rule ln_le_minus_one)
  ultimately show ?thesis by (simp add: arsinh_real_def)
qed

section \<open>The rows of the filterbank\<close>

lemma setitem2_row:
  assumes "setitem2 a i j v = Inr a'" and "0 \<le> i" and "i < int (length a)"
  shows "length a' = length a"
    and "\<forall>r < length a. r \<noteq> nat i \<longrightarrow> a' ! r = a ! r"
    and "length (a' ! nat i) = length (a ! nat i)"
    and "0 \<le> j \<Longrightarrow> \<forall>k < length (a ! nat i). a' ! nat i ! k = (if int k = j then v else a ! nat i ! k)"
proof -
  have r: "axis_index (length a) i = Inr (nat i)" using assms(2,3) by (simp add: axis_index_def)
  from assms(1) obtain c where c: "axis_index (length (a ! nat i)) j = Inr c"
    and a': "a' = a[nat i := (a ! nat i)[c := v]]"
    by (auto simp: setitem2_def r ebind_def split: sum.splits)
  have ni: "nat i < length a" using assms(2,3) by simp
  show "length a' = length a" by (simp add: a')
  show "\<forall>r < length a. r \<noteq> nat i \<longrightarrow> a' ! r = a ! r" by (simp add: a')
  show "length (a' ! nat i) = length (a ! nat i)" using ni by (simp add: a')
  show "\<forall>k < length (a ! nat i). a' ! nat i ! k = (if int k = j then v else a ! nat i ! k)"
    if "0 \<le> j"
  proof -
    from c that have "c = nat j" by (auto simp: axis_index_def split: if_splits)
    then show ?thesis using ni that by (auto simp: a' nth_list_update)
  qed
qed

text \<open>The inner loop of a band writes its own row only.\<close>

lemma fill_loop_other_rows:
  assumes "for_each ks (\<lambda>k fb. ebind (band_weight center k) (\<lambda>w. setitem2 fb (m - 1) k w)) a = Inr a'"
    and "1 \<le> m" and "m \<le> int (length a)"
  shows "length a' = length a \<and> (\<forall>r < length a. r \<noteq> nat (m - 1) \<longrightarrow> a' ! r = a ! r)"
  using assms
proof (induction ks arbitrary: a)
  case Nil
  then show ?case by simp
next
  case (Cons k ks)
  from Cons.prems(1) obtain w b where w: "band_weight center k = Inr w"
    and b: "setitem2 a (m - 1) k w = Inr b"
    and rest: "for_each ks (\<lambda>k fb. ebind (band_weight center k) (\<lambda>w. setitem2 fb (m - 1) k w)) b = Inr a'"
    by (auto simp: ebind_def split: sum.splits)
  have i: "0 \<le> m - 1" "m - 1 < int (length a)" using Cons.prems(2,3) by simp_all
  from setitem2_row(1,2)[OF b i] have lb: "length b = length a"
    and ob: "\<forall>r < length a. r \<noteq> nat (m - 1) \<longrightarrow> b ! r = a ! r" by simp_all
  from Cons.IH[OF rest Cons.prems(2)] Cons.prems(3) lb
  have "length a' = length b" "\<forall>r < length b. r \<noteq> nat (m - 1) \<longrightarrow> a' ! r = b ! r" by simp_all
  with lb ob show ?case by simp
qed

text \<open>With bins from 0 on, the row of the band holds the weight of every bin visited.\<close>

lemma fill_loop_own_row:
  assumes "for_each ks (\<lambda>k fb. ebind (band_weight center k) (\<lambda>w. setitem2 fb (m - 1) k w)) a = Inr a'"
    and "1 \<le> m" and "m \<le> int (length a)" and "\<forall>k \<in> set ks. 0 \<le> k"
  shows "length (a' ! nat (m - 1)) = length (a ! nat (m - 1))
         \<and> (\<forall>k < length (a ! nat (m - 1)).
               if int k \<in> set ks then band_weight center (int k) = Inr (a' ! nat (m - 1) ! k)
               else a' ! nat (m - 1) ! k = a ! nat (m - 1) ! k)"
  using assms
proof (induction ks arbitrary: a)
  case Nil
  then show ?case by simp
next
  case (Cons k0 ks)
  let ?r = "nat (m - 1)"
  from Cons.prems(1) obtain w b where w: "band_weight center k0 = Inr w"
    and b: "setitem2 a (m - 1) k0 w = Inr b"
    and rest: "for_each ks (\<lambda>k fb. ebind (band_weight center k) (\<lambda>w. setitem2 fb (m - 1) k w)) b = Inr a'"
    by (auto simp: ebind_def split: sum.splits)
  have i: "0 \<le> m - 1" "m - 1 < int (length a)" using Cons.prems(2,3) by simp_all
  have k0: "0 \<le> k0" using Cons.prems(4) by simp
  from setitem2_row[OF b i] k0 have lb: "length b = length a"
    and lr: "length (b ! ?r) = length (a ! ?r)"
    and vb: "\<forall>k < length (a ! ?r). b ! ?r ! k = (if int k = k0 then w else a ! ?r ! k)"
    by simp_all
  have "m \<le> int (length b)" "\<forall>k \<in> set ks. 0 \<le> k" using Cons.prems(3,4) lb by simp_all
  from Cons.IH[OF rest Cons.prems(2) this]
  have la': "length (a' ! ?r) = length (b ! ?r)"
    and va': "\<forall>k < length (b ! ?r).
               if int k \<in> set ks then band_weight center (int k) = Inr (a' ! ?r ! k)
               else a' ! ?r ! k = b ! ?r ! k"
    by simp_all
  have "\<forall>k < length (a ! ?r).
          if int k \<in> set (k0 # ks) then band_weight center (int k) = Inr (a' ! ?r ! k)
          else a' ! ?r ! k = a ! ?r ! k"
  proof (intro allI impI)
    fix k assume k: "k < length (a ! ?r)"
    with va' lr have h: "if int k \<in> set ks then band_weight center (int k) = Inr (a' ! ?r ! k)
               else a' ! ?r ! k = b ! ?r ! k" by simp
    from vb k have hb: "b ! ?r ! k = (if int k = k0 then w else a ! ?r ! k)" by simp
    show "if int k \<in> set (k0 # ks) then band_weight center (int k) = Inr (a' ! ?r ! k)
          else a' ! ?r ! k = a ! ?r ! k"
      using h hb w by (cases "int k \<in> set ks"; cases "int k = k0") simp_all
  qed
  with la' lr show ?case by simp
qed

lemma fill_band_rows:
  assumes "fill_band m low center high a = Inr a'" and "1 \<le> m" and "m \<le> int (length a)"
  shows "length a' = length a" and "\<forall>r < length a. r \<noteq> nat (m - 1) \<longrightarrow> a' ! r = a ! r"
    and "0 \<le> low \<Longrightarrow> length (a' ! nat (m - 1)) = length (a ! nat (m - 1))"
    and "0 \<le> low \<Longrightarrow> \<forall>k < length (a ! nat (m - 1)).
           if low \<le> int k \<and> int k < high then band_weight center (int k) = Inr (a' ! nat (m - 1) ! k)
           else a' ! nat (m - 1) ! k = a ! nat (m - 1) ! k"
proof -
  note loop = assms(1)[unfolded fill_band_def]
  from fill_loop_other_rows[OF loop assms(2,3)]
  show "length a' = length a" and "\<forall>r < length a. r \<noteq> nat (m - 1) \<longrightarrow> a' ! r = a ! r"
    by simp_all
  assume low: "0 \<le> low"
  then have "\<forall>k \<in> set [low .. high - 1]. 0 \<le> k" by simp
  from fill_loop_own_row[OF loop assms(2,3) this]
  show "length (a' ! nat (m - 1)) = length (a ! nat (m - 1))"
    and "\<forall>k < length (a ! nat (m - 1)).
           if low \<le> int k \<and> int k < high then band_weight center (int k) = Inr (a' ! nat (m - 1) ! k)
           else a' ! nat (m - 1) ! k = a ! nat (m - 1) ! k"
    by simp_all
qed

lemma band_weight_five_regions:
  assumes "band_weight c k = Inr w"
  shows "five_region_weight (real_of_int (c - k)) (real_of_int k) w' \<longleftrightarrow> w' = w"
proof -
  define d where "d = c - k"
  have cases: "d \<le> - 2 \<or> d = - 1 \<or> d = 0 \<or> d = 1 \<or> d = 2 \<or> 3 \<le> d" by arith
  have w: "band_weight (k + d) k = Inr w" using assms by (simp add: d_def)
  have "five_region_weight (real_of_int d) (real_of_int k) w' \<longleftrightarrow> w' = w"
    using cases
  proof (elim disjE)
    assume "d \<le> - 2"
    then have "real_of_int d \<le> - 2" by linarith
    then show ?thesis using w
      by (auto simp: band_weight_def five_region_weight_def Let_def)
  next
    assume "d = - 1"
    then show ?thesis using w
      by (auto simp: band_weight_def five_region_weight_def Let_def py_pow10_def split: if_splits)
  next
    assume "d = 0"
    then show ?thesis using w
      by (auto simp: band_weight_def five_region_weight_def Let_def py_pow10_def split: if_splits)
  next
    assume "d = 1"
    then show ?thesis using w
      by (auto simp: band_weight_def five_region_weight_def Let_def py_pow10_def split: if_splits)
  next
    assume "d = 2"
    then show ?thesis using w
      by (auto simp: band_weight_def five_region_weight_def Let_def py_pow10_def split: if_splits)
  next
    assume "3 \<le> d"
    then have "3 \<le> real_of_int d" by linarith
    then show ?thesis using w
      by (auto simp: band_weight_def five_region_weight_def Let_def)
  qed
  then show ?thesis by (simp add: d_def)
qed

lemma band_step_rows:
  assumes "band_step ncols hz sr m a = Inr a'" and "1 \<le> m" and "m \<le> int (length a)"
  shows "length a' = length a \<and> (\<forall>r < length a. r \<noteq> nat (m - 1) \<longrightarrow> a' ! r = a ! r)"
proof -
  from assms(1) obtain low center high where "fill_band m low center high a = Inr a'"
    by (auto simp: band_step_def ebind_def split: sum.splits)
  from fill_band_rows(1,2)[OF this assms(2,3)] show ?thesis by simp
qed

lemma band_loop_keeps_row:
  assumes "for_each ms (band_step ncols hz sr) a = Inr a'"
    and "\<forall>m \<in> set ms. 1 \<le> m \<and> m \<le> int (length a) \<and> nat (m - 1) \<noteq> r" and "r < length a"
  shows "length a' = length a \<and> a' ! r = a ! r"
proof -
  have "length a' = length a \<and> a' ! r = a ! r"
    using assms(1)
  proof (rule for_each_invariant[where P = "\<lambda>u. length u = length a \<and> u ! r = a ! r"])
    show "length a = length a \<and> a ! r = a ! r" by simp
  next
    fix m u u'
    assume m: "m \<in> set ms" and u: "length u = length a \<and> u ! r = a ! r"
      and step: "band_step ncols hz sr m u = Inr u'"
    from m assms(2) u have "1 \<le> m" "m \<le> int (length u)" "nat (m - 1) \<noteq> r" by auto
    from band_step_rows[OF step this(1,2)] this(3) u assms(3)
    show "length u' = length a \<and> u' ! r = a ! r" by auto
  qed
  then show ?thesis .
qed

lemma filterbank_row:
  assumes "filterbank nfft nb lf hf sr = Inr fb"
    and "hz_freq lf hf sr nb = Inr hz"
    and "1 \<le> m" and "m \<le> nb"
    and "bin_index (nfft div 2 + 1) hz sr (m - 1) = Inr low"
    and "bin_index (nfft div 2 + 1) hz sr m = Inr center"
    and "bin_index (nfft div 2 + 1) hz sr (m + 1) = Inr high"
    and "0 \<le> low"
  shows "length (fb ! nat (m - 1)) = nat (nfft div 2 + 1)
         \<and> (\<forall>k < nat (nfft div 2 + 1).
               if low \<le> int k \<and> int k < high
               then band_weight center (int k) = Inr (fb ! nat (m - 1) ! k)
               else fb ! nat (m - 1) ! k = 0)"
proof -
  let ?nc = "nfft div 2 + 1" and ?r = "nat (m - 1)"
  let ?step = "band_step ?nc hz sr"
  from assms(1,2) obtain z where z: "np_zeros nb ?nc = Inr z"
    and loop: "for_each [1 .. nb] ?step z = Inr fb"
    by (auto simp: filterbank_def ebind_def split: sum.splits)
  from z have zs: "z = replicate (nat nb) (replicate (nat ?nc) 0)" and nc: "0 \<le> ?nc"
    by (auto simp: np_zeros_def split: if_splits)
  have lz: "length z = nat nb" and r: "?r < nat nb" using zs assms(3,4) by auto
  have split: "[1 .. nb] = [1 .. m - 1] @ m # [m + 1 .. nb]"
    using assms(3,4) by (rule upto_split3)
  from loop obtain u1 u2 where u1: "for_each [1 .. m - 1] ?step z = Inr u1"
    and u2: "?step m u1 = Inr u2" and u3: "for_each [m + 1 .. nb] ?step u2 = Inr fb"
    unfolding split for_each_append by (auto simp: ebind_def split: sum.splits)
  have "length u1 = length z \<and> u1 ! ?r = z ! ?r"
    using u1 by (rule band_loop_keeps_row) (use assms(3,4) lz r in auto)
  then have l1: "length u1 = nat nb" and r1: "u1 ! ?r = replicate (nat ?nc) 0"
    using lz r zs by auto
  have m1: "m \<le> int (length u1)" using l1 assms(3,4) by simp
  from u2 have fill: "fill_band m low center high u1 = Inr u2"
    by (simp add: band_step_def assms(5,6,7))
  from fill_band_rows[OF fill assms(3) m1] assms(8) r1
  have l2: "length u2 = nat nb" and lr2: "length (u2 ! ?r) = nat ?nc"
    and v2: "\<forall>k < nat ?nc.
           if low \<le> int k \<and> int k < high then band_weight center (int k) = Inr (u2 ! ?r ! k)
           else u2 ! ?r ! k = replicate (nat ?nc) (0::real) ! k"
    using l1 by simp_all
  have "length fb = length u2 \<and> fb ! ?r = u2 ! ?r"
    using u3 by (rule band_loop_keeps_row) (use assms(3,4) l2 r in auto)
  then have "fb ! ?r = u2 ! ?r" by simp
  with lr2 v2 show ?thesis by (auto split: if_splits)
qed

section \<open>A filterbank worked out by hand\<close>

lemma arsinh_63_16: "arsinh (63 / 16 :: real) = 3 * ln 2"
proof -
  have "sqrt ((63 / 16)\<^sup>2 + 1 :: real) = 65 / 16"
    by (rule real_sqrt_unique) (simp_all add: power2_eq_square)
  then have "arsinh (63 / 16 :: real) = ln 8" by (simp add: arsinh_real_def)
  also have "ln (8 :: real) = ln (2 ^ 3)" by simp
  also have "\<dots> = 3 * ln 2" by (simp only: ln_realpow)
  finally show ?thesis .
qed

lemma sinh_ln2: "sinh (ln 2 :: real) = 3 / 4" "sinh (2 * ln 2 :: real) = 15 / 8"
  "sinh (3 * ln 2 :: real) = 63 / 16"
proof -
  show "sinh (ln 2 :: real) = 3 / 4" by (simp add: sinh_ln_real)
  have "2 * ln 2 = ln (2 ^ 2 :: real)" by (simp only: ln_realpow)
  then show "sinh (2 * ln 2 :: real) = 15 / 8" by (simp add: sinh_ln_real)
  have "3 * ln 2 = ln (2 ^ 3 :: real)" by (simp only: ln_realpow)
  then show "sinh (3 * ln 2 :: real) = 63 / 16" by (simp add: sinh_ln_real)
qed

lemma example_hz_freq: "hz_freq 0 (4725 / 2) 5100 2 = Inr [0, 450, 1125, 4725 / 2]"
proof -
  have "ln (2::real) \<le> 2 - 1" using ln_le_minus_one[of "2::real"] by simp
  then have hi: "bark_high (4725 / 2) 5100 = 18 * ln 2"
    using arsinh_63_16 by (simp add: bark_high_def)
  have up: "[0 ..< 4] = [0, 1, 2, 3::nat]" by (simp add: upt_rec)
  show ?thesis
    by (simp add: hz_freq_def bark_low_def hi np_linspace_def up sinh_ln2)
qed

lemma example_bins:
  "bin_index 17 [0, 450, 1125, 4725 / 2] 5100 0 = Inr 0"
  "bin_index 17 [0, 450, 1125, 4725 / 2] 5100 1 = Inr 1"
  "bin_index 17 [0, 450, 1125, 4725 / 2] 5100 2 = Inr 3"
  "bin_index 17 [0, 450, 1125, 4725 / 2] 5100 3 = Inr 7"
  by (simp_all add: bin_index_def getitem_def axis_index_def int_of_bin_def py_int_def)

lemma example_weights:
  "band_weight 1 0 = Inr (10 powr (1 / 20))" "band_weight 1 1 = Inr 1"
  "band_weight 1 2 = Inr (10 powr (25 / 4))"
  "band_weight 3 1 = Inr (10 powr (- (1 / 20)))" "band_weight 3 2 = Inr (10 powr (- (3 / 20)))"
  "band_weight 3 3 = Inr 1" "band_weight 3 4 = Inr (10 powr (45 / 4))"
  "band_weight 3 5 = Inr 0" "band_weight 3 6 = Inr 0"
  by (simp_all add: band_weight_def py_pow10_def)

lemma example_filterbank:
  "filterbank 32 2 0 (4725 / 2) 5100
     = Inr [[10 powr (1 / 20), 1, 10 powr (25 / 4), 0, 0, 0, 0, 0, 0, 0, 0, 0, 0, 0, 0, 0, 0],
            [0, 10 powr (- (1 / 20)), 10 powr (- (3 / 20)), 1, 10 powr (45 / 4),
             0, 0, 0, 0, 0, 0, 0, 0, 0, 0, 0, 0]]"
proof -
  have r: "[1 .. 2] = [1, 2 :: int]" "[0 .. 2] = [0, 1, 2 :: int]" "[1 .. 6] = [1, 2, 3, 4, 5, 6 :: int]"
    by code_simp+
  have z: "np_zeros 2 17 = Inr (replicate 2 (replicate 17 0))" by (simp add: np_zeros_def)
  have n: "replicate 17 (0::real) = [0, 0, 0, 0, 0, 0, 0, 0, 0, 0, 0, 0, 0, 0, 0, 0, 0]"
    "replicate 2 x = [x, x]" for x :: "real list"
    by (simp_all add: numeral_eq_Suc)
  show ?thesis
    by (simp add: filterbank_def example_hz_freq z n r band_step_def example_bins fill_band_def
        example_weights setitem2_def axis_index_def)
qed

section \<open>The peak of a tile\<close>

lemma argmax_scan_spec:
  assumes "length pre = pos" and "best < pos" and "pre ! best = bv"
    and "\<forall>i < pos. pre ! i \<le> bv" and "\<forall>i < best. pre ! i < bv"
  shows "argmax_scan xs pos best bv < length (pre @ xs)
         \<and> (\<forall>i < length (pre @ xs). (pre @ xs) ! i \<le> (pre @ xs) ! argmax_scan xs pos best bv)
         \<and> (\<forall>i < argmax_scan xs pos best bv. (pre @ xs) ! i < (pre @ xs) ! argmax_scan xs pos best bv)"
  using assms
proof (induction xs arbitrary: pre pos best bv)
  case Nil
  then show ?case by auto
next
  case (Cons x xs)
  let ?pre = "pre @ [x]"
  have app: "pre @ x # xs = ?pre @ xs" by simp
  show ?case
  proof (cases "bv < x")
    case True
    have "length ?pre = Suc pos" "pos < Suc pos" "?pre ! pos = x"
      using Cons.prems(1) by (simp_all add: nth_append)
    moreover have "\<forall>i < Suc pos. ?pre ! i \<le> x"
      using Cons.prems(1,4) True by (auto simp: nth_append less_Suc_eq)
    moreover have "\<forall>i < pos. ?pre ! i < x"
      using Cons.prems(1,4) True by (auto simp: nth_append)
    ultimately show ?thesis
      using Cons.IH[of ?pre "Suc pos" pos x] True unfolding app by simp
  next
    case False
    have "length ?pre = Suc pos" "best < Suc pos" "?pre ! best = bv"
      using Cons.prems(1,2,3) by (simp_all add: nth_append)
    moreover have "\<forall>i < Suc pos. ?pre ! i \<le> bv"
      using Cons.prems(1,4) False by (auto simp: nth_append less_Suc_eq)
    moreover have "\<forall>i < best. ?pre ! i < bv"
      using Cons.prems(1,2,5) by (auto simp: nth_append)
    ultimately show ?thesis
      using Cons.IH[of ?pre "Suc pos" best bv] False unfolding app by simp
  qed
qed

lemma np_argmax_spec:
  assumes "xs \<noteq> []"
  shows "\<exists>k. np_argmax xs = Inr k \<and> k < length xs
           \<and> (\<forall>i < length xs. xs ! i \<le> xs ! k) \<and> (\<forall>i < k. xs ! i < xs ! k)"
proof -
  from assms obtain x rest where xs: "xs = x # rest" by (cases xs) auto
  from argmax_scan_spec[of "[x]" 1 0 x rest] show ?thesis
    by (simp add: xs np_argmax_def)
qed

lemma concat_shaped_nth:
  assumes "shaped R C m" and "a < R" and "b < C"
  shows "length (concat m) = R * C" and "concat m ! (a * C + b) = m ! a ! b"
proof -
  show "length (concat m) = R * C"
    using assms(1) by (induction m arbitrary: R) (auto simp: shaped_def)
  show "concat m ! (a * C + b) = m ! a ! b"
    using assms
  proof (induction m arbitrary: R a)
    case Nil
    then show ?case by (simp add: shaped_def)
  next
    case (Cons row m)
    then have len: "length row = C" and sm: "shaped (R - 1) C m" by (auto simp: shaped_def)
    show ?case
    proof (cases a)
      case 0
      then show ?thesis using len Cons.prems(3) by (simp add: nth_append)
    next
      case (Suc a')
      then have "a' < R - 1" using Cons.prems(2) by simp
      from Cons.IH[OF sm this Cons.prems(3)] show ?thesis
        using Suc len by (simp add: nth_append)
    qed
  qed
qed

lemma sub_matrix_shaped:
  assumes "shaped F T s" and "i < F" and "j < T"
  shows "shaped (min h (F - i)) (min w (T - j)) (sub_matrix s i j h w)"
    and "a < min h (F - i) \<Longrightarrow> b < min w (T - j) \<Longrightarrow> sub_matrix s i j h w ! a ! b = s ! (i + a) ! (j + b)"
proof -
  have len: "length s = F" and rows: "\<And>r. r < F \<Longrightarrow> length (s ! r) = T"
    using assms(1) by (auto simp: shaped_def)
  show "shaped (min h (F - i)) (min w (T - j)) (sub_matrix s i j h w)"
    using assms(1) unfolding shaped_def sub_matrix_def
    by (auto simp: min_def dest!: in_set_takeD in_set_dropD)
  assume ab: "a < min h (F - i)" "b < min w (T - j)"
  then have "i + a < F" "j + b < T" by auto
  then show "sub_matrix s i j h w ! a ! b = s ! (i + a) ! (j + b)"
    using ab len rows[of "i + a"] by (simp add: sub_matrix_def)
qed

lemma row_major_less:
  assumes "b < C" and "b0 < C"
  shows "a * C + b < a0 * C + b0 \<longleftrightarrow> a < a0 \<or> a = a0 \<and> b < (b0::nat)"
proof (cases "a < a0")
  case True
  then have "Suc a \<le> a0" by simp
  then have "Suc a * C \<le> a0 * C" by (rule mult_le_mono1)
  then show ?thesis using True assms by simp
next
  case False
  show ?thesis
  proof (cases "a = a0")
    case True
    then show ?thesis by simp
  next
    case False
    with \<open>\<not> a < a0\<close> have "Suc a0 \<le> a" by simp
    then have "Suc a0 * C \<le> a * C" by (rule mult_le_mono1)
    then show ?thesis using False \<open>\<not> a < a0\<close> assms by simp
  qed
qed

lemma tile_peak_spec:
  assumes "shaped F T s" and "i < F" and "j < T" and "0 < h" and "0 < w"
  shows "\<exists>x y. tile_peak s h w i j = Inr (x, y)
           \<and> i \<le> x \<and> x < i + h \<and> x < F \<and> j \<le> y \<and> y < j + w \<and> y < T
           \<and> (\<forall>x' y'. i \<le> x' \<and> x' < i + h \<and> x' < F \<and> j \<le> y' \<and> y' < j + w \<and> y' < T \<longrightarrow>
                  s ! x' ! y' \<le> s ! x ! y
                  \<and> (x' < x \<or> x' = x \<and> y' < y \<longrightarrow> s ! x' ! y' < s ! x ! y))"
proof -
  define R where "R = min h (F - i)"
  define C where "C = min w (T - j)"
  define sub where "sub = sub_matrix s i j h w"
  have R: "0 < R" and C: "0 < C" using assms by (auto simp: R_def C_def)
  have sh: "shaped R C sub"
    unfolding R_def C_def sub_def by (rule sub_matrix_shaped(1)[OF assms(1,2,3)])
  have el: "sub ! a ! b = s ! (i + a) ! (j + b)" if "a < R" "b < C" for a b
    using that unfolding R_def C_def sub_def by (rule sub_matrix_shaped(2)[OF assms(1,2,3)])
  have c0: "length (sub ! 0) = C" using sh R by (auto simp: shaped_def)
  have lc: "length (concat sub) = R * C"
    using concat_shaped_nth(1)[OF sh R C] .
  have "0 < length (concat sub)" unfolding lc using R C by simp
  then have "concat sub \<noteq> []" by (rule length_greater_0_conv[THEN iffD1])
  from np_argmax_spec[OF this] obtain k where k: "np_argmax (concat sub) = Inr k" "k < R * C"
    and mx: "\<forall>n < R * C. concat sub ! n \<le> concat sub ! k"
    and fst: "\<forall>n < k. concat sub ! n < concat sub ! k"
    unfolding lc by blast
  define a0 where "a0 = k div C"
  define b0 where "b0 = k mod C"
  have kd: "k = a0 * C + b0" by (simp add: a0_def b0_def)
  have b0: "b0 < C" using C by (simp add: b0_def)
  have a0: "a0 < R" using k(2) C by (simp add: a0_def less_mult_imp_div_less)
  have vk: "concat sub ! k = s ! (i + a0) ! (j + b0)"
    unfolding kd using concat_shaped_nth(2)[OF sh a0 b0] el[OF a0 b0] by simp
  have peak: "tile_peak s h w i j = Inr (i + a0, j + b0)"
    by (simp add: tile_peak_def Let_def sub_def[symmetric] k(1) c0 a0_def b0_def)
  have "s ! x' ! y' \<le> s ! (i + a0) ! (j + b0)
        \<and> (x' < i + a0 \<or> x' = i + a0 \<and> y' < j + b0 \<longrightarrow> s ! x' ! y' < s ! (i + a0) ! (j + b0))"
    if cell: "i \<le> x'" "x' < i + h" "x' < F" "j \<le> y'" "y' < j + w" "y' < T" for x' y'
  proof -
    define a where "a = x' - i"
    define b where "b = y' - j"
    have ab: "a < R" "b < C" "x' = i + a" "y' = j + b"
      using cell by (auto simp: a_def b_def R_def C_def)
    have "a * C + b < a * C + C" using ab(2) by simp
    also have "\<dots> = Suc a * C" by simp
    also have "\<dots> \<le> R * C" using ab(1) by (intro mult_le_mono1) simp
    finally have n: "a * C + b < R * C" .
    have vn: "concat sub ! (a * C + b) = s ! x' ! y'"
      using concat_shaped_nth(2)[OF sh ab(1,2)] el[OF ab(1,2)] ab(3,4) by simp
    have le: "s ! x' ! y' \<le> s ! (i + a0) ! (j + b0)"
      using mx[rule_format, OF n] vn vk by simp
    have "s ! x' ! y' < s ! (i + a0) ! (j + b0)" if "x' < i + a0 \<or> x' = i + a0 \<and> y' < j + b0"
    proof -
      from that ab(3,4) have "a < a0 \<or> a = a0 \<and> b < b0" by auto
      then have "a * C + b < k" unfolding kd using row_major_less[OF ab(2) b0] by simp
      from fst[rule_format, OF this] vn vk show ?thesis by simp
    qed
    with le show ?thesis by blast
  qed
  moreover have "i \<le> i + a0" "i + a0 < i + h" "i + a0 < F" "j \<le> j + b0" "j + b0 < j + w" "j + b0 < T"
    using a0 b0 by (auto simp: R_def C_def)
  ultimately show ?thesis using peak by blast
qed

section \<open>The landmark loops\<close>

lemma ceil_div_less:
  assumes "0 < (h::nat)"
  shows "t < (n + h - 1) div h \<longleftrightarrow> t * h < n"
proof -
  have "t < (n + h - 1) div h \<longleftrightarrow> Suc t \<le> (n + h - 1) div h" by auto
  also have "\<dots> \<longleftrightarrow> Suc t * h \<le> n + h - 1"
    using assms by (simp add: less_eq_div_iff_mult_less_eq)
  also have "\<dots> \<longleftrightarrow> t * h < n" using assms by auto
  finally show ?thesis .
qed

lemma py_range_step_pos:
  assumes "0 < step"
  shows "\<exists>xs. py_range_step n step = Inr xs \<and> set xs = {t * nat step | t. t * nat step < n}"
proof -
  define m where "m = (n + nat step - 1) div nat step"
  have m: "t < m \<longleftrightarrow> t * nat step < n" for t
    unfolding m_def using assms by (intro ceil_div_less) simp
  have "set (map (\<lambda>t. t * nat step) [0 ..< m]) = {t * nat step | t. t * nat step < n}"
    by (auto simp: m)
  then show ?thesis using assms by (simp add: py_range_step_def m_def)
qed

lemma same_tile_origin:
  assumes "0 < (h::nat)" and "t * h \<le> x" and "x < t * h + h" and "u * h \<le> x" and "x < u * h + h"
  shows "t = u"
proof -
  have "x div h = t" using assms(1,2,3) by (simp add: div_nat_eqI mult.commute)
  moreover have "x div h = u" using assms(1,4,5) by (simp add: div_nat_eqI mult.commute)
  ultimately show ?thesis by simp
qed

lemma landmarks_loop:
  assumes "shaped F T s" and "0 < h" and "0 < w"
  shows "\<exists>fp pk. landmarks s h w = Inr fp \<and> shaped F T fp
           \<and> (\<forall>ti tj. ti * nat h < F \<and> tj * nat w < T \<longrightarrow>
                  tile_peak s (nat h) (nat w) (ti * nat h) (tj * nat w) = Inr (pk ti tj))
           \<and> (\<forall>x < F. \<forall>y < T.
                  fp ! x ! y = (if \<exists>ti tj. ti * nat h < F \<and> tj * nat w < T \<and> pk ti tj = (x, y)
                                then 1 else 0))"
proof -
  define hn where "hn = nat h"
  define wn where "wn = nat w"
  have hn: "0 < hn" and wn: "0 < wn" using assms(2,3) by (simp_all add: hn_def wn_def)
  have lens: "length s = F" using assms(1) by (simp add: shaped_def)
  from py_range_step_pos[OF assms(2), of "length s"] obtain rows where
    rows: "py_range_step (length s) h = Inr rows" "set rows = {t * hn | t. t * hn < F}"
    unfolding hn_def lens by blast
  from py_range_step_pos[OF assms(3), of T] obtain cols where
    cols: "py_range_step T w = Inr cols" "set cols = {t * wn | t. t * wn < T}"
    unfolding wn_def by blast
  define pq where "pq p = (case tile_peak s hn wn (fst p) (snd p) of Inr q \<Rightarrow> q | Inl e \<Rightarrow> (0, 0))"
    for p :: "nat \<times> nat"
  let ?fp0 = "map (\<lambda>row. replicate (length row) (0::real)) s"
  let ?pairs = "concat (map (\<lambda>i. map (Pair i) cols) rows)"
  have s0: "shaped F T ?fp0" using assms(1) by (auto simp: shaped_def)
  have z0: "?fp0 ! x ! y = 0" if "x < F" "y < T" for x y
    using that assms(1) by (auto simp: shaped_def)
  have peak: "tile_peak s hn wn i j = Inr (pq (i, j)) \<and> fst (pq (i, j)) < F \<and> snd (pq (i, j)) < T"
    if "i < F" "j < T" for i j
    using tile_peak_spec[OF assms(1) that hn wn] by (auto simp: pq_def)
  have inner: "for_each cols (\<lambda>j. mark_tile s (nat h) (nat w) i j) u
                 = for_each cols (\<lambda>j u. setitem2 u (int (fst (pq (i, j)))) (int (snd (pq (i, j)))) 1) u"
    if "i < F" for i and u :: "real list list"
  proof (rule for_each_cong)
    fix j and v :: "real list list" assume "j \<in> set cols"
    then have "j < T" using cols(2) by auto
    from peak[OF that this] show "mark_tile s (nat h) (nat w) i j v
        = setitem2 v (int (fst (pq (i, j)))) (int (snd (pq (i, j)))) 1"
      by (simp add: mark_tile_def hn_def wn_def)
  qed
  have outer: "ebind (py_range_step (length (s ! 0)) w)
                  (\<lambda>cs. for_each cs (\<lambda>j. mark_tile s (nat h) (nat w) i j) u)
             = for_each cols (\<lambda>j u. setitem2 u (int (fst (pq (i, j)))) (int (snd (pq (i, j)))) 1) u"
    if "i \<in> set rows" for i and u :: "real list list"
  proof -
    from that rows(2) have i: "i < F" by auto
    then have "length (s ! 0) = T" using assms(1) by (auto simp: shaped_def)
    then show ?thesis using inner[OF i] by (simp add: cols(1))
  qed
  have "landmarks s h w
          = for_each rows (\<lambda>i. for_each cols
              (\<lambda>j u. setitem2 u (int (fst (pq (i, j)))) (int (snd (pq (i, j)))) 1)) ?fp0"
    unfolding landmarks_def rows(1) ebind_simps by (rule for_each_cong) (rule outer)
  also have "\<dots> = for_each ?pairs
                 (\<lambda>p u. setitem2 u (int (fst (pq (fst p, snd p)))) (int (snd (pq (fst p, snd p)))) 1) ?fp0"
    by (rule for_each_nested)
  finally have eq: "landmarks s h w
      = for_each ?pairs (\<lambda>p u. setitem2 u (int (fst (pq p))) (int (snd (pq p))) 1) ?fp0"
    by simp
  have pairs: "set ?pairs = set rows \<times> set cols" by (rule set_index_pairs)
  have inr: "\<forall>p \<in> set ?pairs. fst (pq p) < F \<and> snd (pq p) < T"
    unfolding pairs using peak rows(2) cols(2) by auto
  from fill_loop[OF s0 inr, of "\<lambda>p. 1"] obtain fp where
    fp: "for_each ?pairs (\<lambda>p u. setitem2 u (int (fst (pq p))) (int (snd (pq p))) 1) ?fp0 = Inr fp"
      "shaped F T fp"
    and val: "\<forall>r < F. \<forall>c < T.
       (if (r, c) \<in> pq ` set ?pairs then \<exists>t \<in> set ?pairs. pq t = (r, c) \<and> fp ! r ! c = 1
        else fp ! r ! c = ?fp0 ! r ! c)"
    by blast
  define pk where "pk ti tj = pq (ti * hn, tj * wn)" for ti tj
  have img: "(x, y) \<in> pq ` set ?pairs \<longleftrightarrow> (\<exists>ti tj. ti * hn < F \<and> tj * wn < T \<and> pk ti tj = (x, y))"
    for x y
    unfolding pairs rows(2) cols(2) pk_def by (auto simp: image_iff) metis+
  have "\<forall>x < F. \<forall>y < T.
          fp ! x ! y = (if \<exists>ti tj. ti * hn < F \<and> tj * wn < T \<and> pk ti tj = (x, y) then 1 else 0)"
  proof (intro allI impI)
    fix x y assume xy: "x < F" "y < T"
    from val xy have "if (x, y) \<in> pq ` set ?pairs then \<exists>t \<in> set ?pairs. pq t = (x, y) \<and> fp ! x ! y = 1
        else fp ! x ! y = ?fp0 ! x ! y" by blast
    then show "fp ! x ! y = (if \<exists>ti tj. ti * hn < F \<and> tj * wn < T \<and> pk ti tj = (x, y) then 1 else 0)"
      unfolding img[symmetric] using z0[OF xy] by (auto split: if_splits)
  qed
  moreover have "\<forall>ti tj. ti * hn < F \<and> tj * wn < T \<longrightarrow>
                  tile_peak s hn wn (ti * hn) (tj * wn) = Inr (pk ti tj)"
    using peak by (simp add: pk_def)
  ultimately show ?thesis
    using eq fp unfolding hn_def wn_def by auto
qed

lemma example_spectrogram:
  "landmark_spectrogram example_collaborators example_landmark_args [] 16000
     = Inr [[1, 2, 1], [0, 2, 3]]"
  by (simp add: landmark_spectrogram_def example_collaborators_def example_landmark_args_def)

lemma example_landmarks:
  "extractLandmarksFingerprinting example_collaborators example_landmark_args [] 16000
     = Inr [[0, 1, 1], [0, 1, 1]]"
  unfolding extractLandmarksFingerprinting_def example_spectrogram ebind_def sum.case
  by (simp add: example_landmark_args_def) code_simp

section \<open>Framing and the fingerprint\<close>

text \<open>
  The function has no check of its own on the hop or on the length of the waveform: an
  exception of the framing call is the exception of the function, and a framing call that
  returns no frame gives a fingerprint with no row.
\<close>

lemma extractFBE_frames_raise:
  "fbe_frames col a samples sr = Inl e \<Longrightarrow> extractFBEFingerprinting col a samples sr = Inl e"
  by (simp add: extractFBEFingerprinting_def)

lemma extractFBE_no_frames:
  assumes "fbe_frames col a samples sr = Inr []"
    and "1 \<le> fft_points a" and "1 \<le> n_bands a"
    and "returns (filterbank (fft_points a) (n_bands a) (low_freq a) (high_freq a) sr)"
  shows "extractFBEFingerprinting col a samples sr = Inr []"
proof -
  from extractFBE_bits[OF assms] obtain fp where
    "extractFBEFingerprinting col a samples sr = Inr fp" "shaped (length ([] :: real list list)) (nat (n_bands a) - 1) fp"
    by blast
  then show ?thesis by (simp add: shaped_def)
qed

section \<open>Shape of the fingerprint, and a configuration on which the filterbank overflows\<close>

lemma extractFBE_shape:
  assumes "fbe_frames col a samples sr = Inr frames"
    and "1 \<le> fft_points a" and "1 \<le> n_bands a"
    and "returns (filterbank (fft_points a) (n_bands a) (low_freq a) (high_freq a) sr)"
  shows "\<exists>fp. extractFBEFingerprinting col a samples sr = Inr fp
           \<and> length fp = length frames
           \<and> (\<forall>row \<in> set fp. length row = nat (n_bands a - 1) \<and> set row \<subseteq> {0, 1})"
proof -
  from extractFBE_bits[OF assms(1-4)] obtain E :: "real list list" and fp where
    fp: "extractFBEFingerprinting col a samples sr = Inr fp"
    and sh: "shaped (length frames) (nat (n_bands a) - 1) fp"
    and bits: "\<forall>i < length frames. \<forall>j < nat (n_bands a) - 1.
                 fp ! i ! j = (if i = 0 then 0 else bit_rule E i j)"
    by blast
  have w: "nat (n_bands a) - 1 = nat (n_bands a - 1)" using assms(3) by simp
  have "length row = nat (n_bands a - 1) \<and> set row \<subseteq> {0, 1}" if "row \<in> set fp" for row
  proof -
    from that obtain i where i: "i < length fp" "row = fp ! i" by (auto simp: in_set_conv_nth)
    have len: "length row = nat (n_bands a - 1)" using that sh unfolding shaped_def w by blast
    have "x \<in> {0, 1}" if "x \<in> set row" for x
    proof -
      from that obtain j where j: "j < length row" "x = row ! j" by (auto simp: in_set_conv_nth)
      have "i < length frames" using i(1) sh by (simp add: shaped_def)
      with bits[rule_format, of i j] j len w i(2)
      have "x = (if i = 0 then 0 else bit_rule E i j)" by simp
      then show ?thesis by (simp add: bit_rule_def)
    qed
    with len show ?thesis by blast
  qed
  moreover have "length fp = length frames" using sh by (simp add: shaped_def)
  ultimately show ?thesis using fp by blast
qed

lemma overflow_hz_freq: "hz_freq 0 (4725 / 2) 4725 2 = Inr [0, 450, 1125, 4725 / 2]"
proof -
  have "ln (2::real) \<le> 2 - 1" using ln_le_minus_one[of "2::real"] by simp
  then have hi: "bark_high (4725 / 2) 4725 = 18 * ln 2"
    using arsinh_63_16 by (simp add: bark_high_def)
  have up: "[0 ..< 4] = [0, 1, 2, 3::nat]" by (simp add: upt_rec)
  show ?thesis
    by (simp add: hz_freq_def bark_low_def hi np_linspace_def up sinh_ln2)
qed

lemma overflow_bins:
  "bin_index 513 [0, 450, 1125, 4725 / 2] 4725 0 = Inr 0"
  "bin_index 513 [0, 450, 1125, 4725 / 2] 4725 1 = Inr 48"
  "bin_index 513 [0, 450, 1125, 4725 / 2] 4725 2 = Inr 122"
  "bin_index 513 [0, 450, 1125, 4725 / 2] 4725 3 = Inr 256"
  by (simp_all add: bin_index_def getitem_def axis_index_def int_of_bin_def py_int_def)

text \<open>A band whose bin \<open>center + 1 = 123\<close> lies inside \<open>[low, high)\<close> cannot be filled.\<close>

lemma fill_band_overflow:
  assumes "shaped R C (fb :: real list list)" and "1 \<le> m" and "m \<le> int R"
    and "0 \<le> low" and "low \<le> 123" and "123 < high" and "123 \<le> int C"
  shows "fill_band m low 122 high fb = Inl OverflowError"
proof -
  let ?body = "\<lambda>k u. ebind (band_weight 122 k) (\<lambda>w. setitem2 u (m - 1) k w)"
  have split: "[low .. high - 1] = [low .. 123 - 1] @ 123 # [123 + 1 .. high - 1]"
    using assms(5,6) by (intro upto_split3) simp_all
  from fill_band_returns[OF assms(1,2,3,4), of 123 122] assms(7) obtain u where
    u: "for_each [low .. 123 - 1] ?body fb = Inr u"
    unfolding fill_band_def by auto
  have w: "band_weight 122 123 = Inl OverflowError"
    by (simp add: band_weight_def py_pow10_def)
  show ?thesis
    unfolding fill_band_def split for_each_append u by (simp add: w)
qed

lemma overflow_filterbank: "filterbank 1024 2 0 (4725 / 2) 4725 = Inl OverflowError"
proof -
  let ?hz = "[0, 450, 1125, 4725 / 2 :: real]"
  let ?z = "replicate 2 (replicate 513 (0::real))"
  have z: "np_zeros 2 513 = Inr ?z" by (simp add: np_zeros_def)
  have sz: "shaped 2 513 ?z" by (simp add: shaped_def)
  have r: "[1 .. 2] = [1, 2 :: int]" by code_simp
  from fill_band_returns[OF sz, of 1 0 122 48] obtain u where
    u: "fill_band 1 0 48 122 ?z = Inr u" "shaped 2 513 u" by auto
  have b1: "band_step 513 ?hz 4725 1 ?z = Inr u"
    using overflow_bins u(1) by (simp add: band_step_def)
  have "fill_band 2 48 122 256 u = Inl OverflowError"
    by (rule fill_band_overflow[OF u(2)]) simp_all
  then have b2: "band_step 513 ?hz 4725 2 u = Inl OverflowError"
    using overflow_bins by (simp add: band_step_def)
  show ?thesis
    by (simp add: filterbank_def overflow_hz_freq z r b1 b2)
qed

lemma extractFBE_filterbank_raises:
  assumes "fbe_frames col a samples sr = Inr frames" and "1 \<le> fft_points a"
    and "filterbank (fft_points a) (n_bands a) (low_freq a) (high_freq a) sr = Inl e"
  shows "extractFBEFingerprinting col a samples sr = Inl e"
proof -
  from power_spectrum_returns[OF assms(2), of frames] obtain pw where
    "power_spectrum frames (fft_points a) = Inr pw" by blast
  then have "fbe_energy a sr frames = Inl e" by (simp add: fbe_energy_def assms(3))
  then show ?thesis by (simp add: extractFBEFingerprinting_def assms(1))
qed

section \<open>The claims\<close>

text \<open>
  C1, as the code has it. The claim gives the band range as \<open>[0, n_bands - 2)\<close> and says
  that no other column of a row \<open>i \<ge> 1\<close> is set. The loop of line 77 runs over
  \<open>[0, n_bands - 1)\<close>, every column of the fingerprint: with three bands, column
  \<open>1 = n_bands - 2\<close> of frame 1 is set to 1.
\<close>

theorem fbe_last_column_counterexample:
  "bit_derivation 2 3 [[0, 0, 0], [0, 1, 0 :: real]] = Inr [[0, 0], [0, 1]]
   \<and> \<not> (1 :: int) < 3 - 2"
  by code_simp

text \<open>
  C1 (amended). For every frame \<open>i\<close> with \<open>1 \<le> i < n_frames\<close> and every band \<open>j\<close> in
  \<open>[0, n_bands - 1)\<close>, \<^verbatim>\<open>fp[i][j]\<close> is 1 exactly when
  \<open>(E[i][j] - E[i][j+1]) - (E[i-1][j] - E[i-1][j-1]) > 0\<close> and 0 otherwise, where
  \<^verbatim>\<open>E[i-1][j-1]\<close> is the numpy read (\<open>d\<close> below) and \<open>E\<close> the energy matrix of lines
  37--72. Row \<open>i\<close> has \<open>n_bands - 1\<close> columns, so the rule sets all of them.
\<close>

theorem fbe_bit_rule:
  assumes "fbe_frames col a samples sr = Inr frames"
    and "1 \<le> fft_points a"
    and "returns (filterbank (fft_points a) (n_bands a) (low_freq a) (high_freq a) sr)"
    and "1 \<le> i" and "i < length frames" and "int j < n_bands a - 1"
  shows "\<exists>E fp d. fbe_energy a sr frames = Inr E
           \<and> extractFBEFingerprinting col a samples sr = Inr fp
           \<and> length (fp ! i) = nat (n_bands a - 1)
           \<and> getitem (E ! (i - 1)) (int j - 1) = Inr d
           \<and> fp ! i ! j = (if E ! i ! j - E ! i ! (j + 1) - (E ! (i - 1) ! j - d) > 0 then 1 else 0)"
proof -
  from assms(6) have nb: "1 \<le> n_bands a" and j: "j < nat (n_bands a) - 1" by auto
  from extractFBE_bits[OF assms(1,2) nb assms(3)] obtain E fp where
    E: "fbe_energy a sr frames = Inr E" "shaped (length frames) (nat (n_bands a)) E"
    and fp: "extractFBEFingerprinting col a samples sr = Inr fp"
      "shaped (length frames) (nat (n_bands a) - 1) fp"
    and bits: "\<forall>i < length frames. \<forall>j < nat (n_bands a) - 1.
                 fp ! i ! j = (if i = 0 then 0 else bit_rule E i j)"
    by blast
  have len: "length (E ! (i - 1)) = nat (n_bands a)"
    using E(2) assms(4,5) by (auto simp: shaped_def)
  have d: "getitem (E ! (i - 1)) (int j - 1)
             = Inr (E ! (i - 1) ! (if j = 0 then length (E ! (i - 1)) - 1 else j - 1))"
  proof (cases "j = 0")
    case True
    then show ?thesis using len nb by simp
  next
    case False
    then show ?thesis using len j by simp
  qed
  have "fp ! i ! j = bit_rule E i j" using bits assms(4,5) j by auto
  moreover have "length (fp ! i) = nat (n_bands a - 1)"
    using fp(2) assms(5) by (auto simp: shaped_def nat_diff_distrib')
  ultimately show ?thesis using E(1) fp(1) d by (auto simp: bit_rule_def)
qed

theorem fbe_bit_rule_witness:
  "fbe_frames example_collaborators (default_fbe_args\<lparr>window_length := 2\<rparr>) [1, 0, 0, 1] 8000
     = Inr [[1, 0], [0, 1]]
   \<and> 1 \<le> fft_points (default_fbe_args\<lparr>window_length := 2\<rparr>)
   \<and> returns (filterbank 512 33 300 2000 8000)
   \<and> (1::nat) \<le> 1 \<and> 1 < length [[1, 0], [0, 1::real]]
   \<and> int 31 < n_bands (default_fbe_args\<lparr>window_length := 2\<rparr>) - 1
   \<and> (\<exists>E fp d. fbe_energy (default_fbe_args\<lparr>window_length := 2\<rparr>) 8000 [[1, 0], [0, 1]] = Inr E
         \<and> extractFBEFingerprinting example_collaborators (default_fbe_args\<lparr>window_length := 2\<rparr>)
              [1, 0, 0, 1] 8000 = Inr fp
         \<and> length (fp ! 1) = 32
         \<and> getitem (E ! 0) 30 = Inr d
         \<and> fp ! 1 ! 31 = (if E ! 1 ! 31 - E ! 1 ! 32 - (E ! 0 ! 31 - d) > 0 then 1 else 0))"
proof -
  let ?a = "default_fbe_args\<lparr>window_length := 2\<rparr>"
  have h1: "fbe_frames example_collaborators ?a [1, 0, 0, 1] 8000 = Inr [[1, 0], [0, 1]]"
    by (simp add: fbe_frames_def example_collaborators_def default_fbe_args_def)
  have h2: "1 \<le> fft_points ?a" by (simp add: default_fbe_args_def)
  have r: "returns (filterbank 512 33 300 2000 8000)"
    using filterbank_returns[of 33 300 2000 8000 512] by (simp add: returns_iff)
  then have h3: "returns (filterbank (fft_points ?a) (n_bands ?a) (low_freq ?a) (high_freq ?a) 8000)"
    by (simp add: default_fbe_args_def)
  have h4: "(1::nat) \<le> 1" and h5: "1 < length [[1, 0], [0, 1::real]]" by simp_all
  have h6: "int 31 < n_bands ?a - 1" by (simp add: default_fbe_args_def)
  from fbe_bit_rule[OF h1 h2 h3 h4 h5 h6]
  show ?thesis using h1 h2 r by (simp add: default_fbe_args_def)
qed

text \<open>
  C2, as the code has it. The claim says that row 0 and column 0 of the fingerprint are
  all zeros. Column 0 is written by the loop like every other column: with two bands and
  the energies below, \<^verbatim>\<open>fp[1][0]\<close> is 1.
\<close>

theorem fbe_column_zero_counterexample:
  "bit_derivation 2 2 [[- 1, 1], [1, - 1 :: real]] = Inr [[0], [1]]"
  by code_simp

text \<open>
  C2 (amended). In the fingerprint \<^verbatim>\<open>extractFBEFingerprinting\<close> returns, row 0 (frame 0)
  is all zeros, whatever the waveform and the configuration; column 0 is zero in row 0
  and carries the bit of the rule in the rows below.
\<close>

theorem fbe_row_zero:
  assumes "fbe_frames col a samples sr = Inr frames"
    and "1 \<le> fft_points a" and "1 \<le> n_bands a"
    and "returns (filterbank (fft_points a) (n_bands a) (low_freq a) (high_freq a) sr)"
    and "0 < length frames"
  shows "\<exists>fp. extractFBEFingerprinting col a samples sr = Inr fp
           \<and> fp ! 0 = replicate (nat (n_bands a - 1)) 0"
proof -
  from extractFBE_bits[OF assms(1-4)] obtain E :: "real list list" and fp where
    fp: "extractFBEFingerprinting col a samples sr = Inr fp"
    and sh: "shaped (length frames) (nat (n_bands a) - 1) fp"
    and bits: "\<forall>i < length frames. \<forall>j < nat (n_bands a) - 1.
                 fp ! i ! j = (if i = 0 then 0 else bit_rule E i j)"
    by blast
  have w: "nat (n_bands a) - 1 = nat (n_bands a - 1)" using assms(3) by simp
  have "fp ! 0 \<in> set fp" using sh assms(5) by (simp add: shaped_def)
  then have len: "length (fp ! 0) = nat (n_bands a - 1)"
    using sh unfolding shaped_def w by blast
  have "fp ! 0 = replicate (nat (n_bands a - 1)) 0"
  proof (rule nth_equalityI)
    show "length (fp ! 0) = length (replicate (nat (n_bands a - 1)) (0::real))"
      using len by simp
  next
    fix j assume j: "j < length (fp ! 0)"
    then have "fp ! 0 ! j = 0" using bits[rule_format, of 0 j] assms(5) len w by simp
    then show "fp ! 0 ! j = replicate (nat (n_bands a - 1)) 0 ! j"
      using j len by simp
  qed
  with fp show ?thesis by simp
qed

theorem fbe_row_zero_witness:
  "fbe_frames example_collaborators (default_fbe_args\<lparr>window_length := 3\<rparr>) [1, 2, 3, 4, 5, 6] 16000
     = Inr [[1, 2, 3], [4, 5, 6]]
   \<and> 1 \<le> fft_points (default_fbe_args\<lparr>window_length := 3\<rparr>)
   \<and> 1 \<le> n_bands (default_fbe_args\<lparr>window_length := 3\<rparr>)
   \<and> returns (filterbank 512 33 300 2000 16000)
   \<and> 0 < length [[1, 2, 3], [4, 5, 6 :: real]]
   \<and> (\<exists>fp. extractFBEFingerprinting example_collaborators (default_fbe_args\<lparr>window_length := 3\<rparr>)
              [1, 2, 3, 4, 5, 6] 16000 = Inr fp
         \<and> fp ! 0 = replicate 32 0)"
proof -
  let ?a = "default_fbe_args\<lparr>window_length := 3\<rparr>"
  have h1: "fbe_frames example_collaborators ?a [1, 2, 3, 4, 5, 6] 16000 = Inr [[1, 2, 3], [4, 5, 6]]"
    by (simp add: fbe_frames_def example_collaborators_def default_fbe_args_def)
  have h2: "1 \<le> fft_points ?a" and h3: "1 \<le> n_bands ?a"
    by (simp_all add: default_fbe_args_def)
  have h4: "returns (filterbank (fft_points ?a) (n_bands ?a) (low_freq ?a) (high_freq ?a) 16000)"
    using default_filterbank_returns by (simp add: default_fbe_args_def)
  have h5: "0 < length [[1, 2, 3], [4, 5, 6 :: real]]" by simp
  from fbe_row_zero[OF h1 h2 h3 h4 h5]
  show ?thesis using h1 h2 h3 default_filterbank_returns by (simp add: default_fbe_args_def)
qed

text \<open>
  C3, as the code has it. The claim promises a fingerprint for every valid configuration.
  With 1024 FFT points, two bands from 0 to 2362.5 Hz and a sample rate of 4725 Hz the
  band edges are the bins 0, 48, 122 and 256; in the second band bin 123 has
  \<open>delta = - 1\<close>, line 60 forms \<^verbatim>\<open>10 ** 308.75\<close> and raises \<^verbatim>\<open>OverflowError\<close>: the function
  returns no matrix, although the frames were extracted, \<open>n_bands \<ge> 1\<close>,
  \<open>low_freq < high_freq \<le> sr / 2\<close> and \<open>0 < window_length \<le> fft_points\<close>.
\<close>

theorem fbe_overflow_counterexample:
  "extractFBEFingerprinting example_collaborators
     (default_fbe_args\<lparr>fft_points := 1024, n_bands := 2, low_freq := 0, high_freq := 4725 / 2\<rparr>)
     (replicate 480 0) 4725 = Inl OverflowError
   \<and> fbe_frames example_collaborators
     (default_fbe_args\<lparr>fft_points := 1024, n_bands := 2, low_freq := 0, high_freq := 4725 / 2\<rparr>)
     (replicate 480 0) 4725 = Inr [replicate 240 0, replicate 240 0]
   \<and> (1::int) \<le> 2 \<and> (0::real) < 4725 / 2 \<and> (4725 / 2 :: real) \<le> 4725 / 2
   \<and> (0::int) < 240 \<and> (240::int) \<le> 1024"
proof -
  let ?a = "default_fbe_args\<lparr>fft_points := 1024, n_bands := 2, low_freq := 0, high_freq := 4725 / 2\<rparr>"
  have f: "fbe_frames example_collaborators ?a (replicate 480 0) 4725
             = Inr [replicate 240 0, replicate 240 0]"
    by (simp add: fbe_frames_def example_collaborators_def default_fbe_args_def)
  have n: "1 \<le> fft_points ?a" by (simp add: default_fbe_args_def)
  have o: "filterbank (fft_points ?a) (n_bands ?a) (low_freq ?a) (high_freq ?a) 4725 = Inl OverflowError"
    using overflow_filterbank by (simp add: default_fbe_args_def)
  from extractFBE_filterbank_raises[OF f n o] f show ?thesis by simp
qed

text \<open>
  C3 (amended). For every configuration with \<open>fft_points \<ge> 1\<close>, \<open>n_bands \<ge> 1\<close>,
  \<open>0 \<le> low_freq \<le> high_freq \<le> sr\<close>, \<open>sr > 0\<close> and
  \<open>(fft_points // 2 + 1) * high_freq < 123 * sr\<close> (every bin stays below 123, so that no
  weight overflows), and every waveform from which the framing call returns frames,
  \<^verbatim>\<open>extractFBEFingerprinting\<close> returns a matrix of shape \<open>(n_frames, n_bands - 1)\<close> whose
  entries are 0 or 1, \<open>n_frames\<close> being the number of frames extracted.
\<close>

theorem fbe_shape_in_range:
  assumes "fbe_frames col a samples sr = Inr frames"
    and "1 \<le> fft_points a" and "1 \<le> n_bands a"
    and "0 \<le> low_freq a" and "low_freq a \<le> high_freq a" and "high_freq a \<le> sr" and "0 < sr"
    and "real_of_int (fft_points a div 2 + 1) * high_freq a < 123 * sr"
  shows "\<exists>fp. extractFBEFingerprinting col a samples sr = Inr fp
           \<and> length fp = length frames
           \<and> (\<forall>row \<in> set fp. length row = nat (n_bands a - 1) \<and> set row \<subseteq> {0, 1})"
proof -
  have "0 \<le> n_bands a" "0 \<le> fft_points a div 2 + 1" using assms(2,3) by simp_all
  from filterbank_returns[OF this(1) assms(4,5,6,7) this(2) assms(8)]
  have "returns (filterbank (fft_points a) (n_bands a) (low_freq a) (high_freq a) sr)"
    by (simp add: returns_iff)
  from extractFBE_shape[OF assms(1,2,3) this] show ?thesis .
qed

theorem fbe_shape_in_range_witness:
  "fbe_frames example_collaborators default_fbe_args (replicate 480 0) 16000
     = Inr [replicate 240 0, replicate 240 0]
   \<and> 1 \<le> fft_points default_fbe_args \<and> 1 \<le> n_bands default_fbe_args
   \<and> 0 \<le> low_freq default_fbe_args \<and> low_freq default_fbe_args \<le> high_freq default_fbe_args
   \<and> high_freq default_fbe_args \<le> 16000 \<and> (0::real) < 16000
   \<and> real_of_int (fft_points default_fbe_args div 2 + 1) * high_freq default_fbe_args < 123 * 16000
   \<and> (\<exists>fp. extractFBEFingerprinting example_collaborators default_fbe_args (replicate 480 0) 16000
              = Inr fp
         \<and> length fp = length [replicate 240 0, replicate 240 (0::real)]
         \<and> (\<forall>row \<in> set fp. length row = nat (n_bands default_fbe_args - 1) \<and> set row \<subseteq> {0, 1}))"
proof -
  have h1: "fbe_frames example_collaborators default_fbe_args (replicate 480 0) 16000
              = Inr [replicate 240 0, replicate 240 0]"
    by (simp add: fbe_frames_def example_collaborators_def default_fbe_args_def)
  have h2: "1 \<le> fft_points default_fbe_args" and h3: "1 \<le> n_bands default_fbe_args"
    and h4: "0 \<le> low_freq default_fbe_args"
    and h5: "low_freq default_fbe_args \<le> high_freq default_fbe_args"
    and h6: "high_freq default_fbe_args \<le> 16000" and h7: "(0::real) < 16000"
    and h8: "real_of_int (fft_points default_fbe_args div 2 + 1) * high_freq default_fbe_args
               < 123 * 16000"
    by (simp_all add: default_fbe_args_def)
  from fbe_shape_in_range[OF h1 h2 h3 h4 h5 h6 h7 h8]
  show ?thesis using h1 h2 h3 h4 h5 h6 h7 h8 by blast
qed

text \<open>
  C4. \<^verbatim>\<open>extractLandmarksFingerprinting\<close> returns a matrix of zeros and ones of the shape
  of the magnitude spectrogram in which every \<open>height \<times> width\<close> tile of the grid (the
  smaller tiles at the far edges included) holds exactly one 1, at the cell of the maximum
  magnitude of the tile, the first such cell in row-major order. A valid configuration
  has positive \<open>height\<close> and \<open>width\<close>; the spectrogram is the one \<^verbatim>\<open>librosa.stft\<close> returns
  for the call of line 115, a two-dimensional array of \<open>F\<close> rows and \<open>T\<close> columns.
\<close>

theorem landmarks_one_peak_per_tile:
  assumes "landmark_spectrogram col a samples sr = Inr s" and "shaped F T s"
    and "0 < height a" and "0 < width a"
  shows "\<exists>fp. extractLandmarksFingerprinting col a samples sr = Inr fp \<and> shaped F T fp
           \<and> (\<forall>x < F. \<forall>y < T. fp ! x ! y = 0 \<or> fp ! x ! y = 1)
           \<and> (\<forall>ti tj. ti * nat (height a) < F \<and> tj * nat (width a) < T \<longrightarrow>
                  (\<exists>x y. first_max_of_tile s (nat (height a)) (nat (width a)) F T ti tj x y
                     \<and> (\<forall>x' y'. tile_cell (nat (height a)) (nat (width a)) F T ti tj x' y' \<longrightarrow>
                            fp ! x' ! y' = (if (x', y') = (x, y) then 1 else 0))))"
proof -
  define h where "h = nat (height a)"
  define w where "w = nat (width a)"
  have h: "0 < h" and w: "0 < w" using assms(3,4) by (simp_all add: h_def w_def)
  from landmarks_loop[OF assms(2,3,4)] obtain fp pk where
    fp: "landmarks s (height a) (width a) = Inr fp" "shaped F T fp"
    and pk: "\<And>ti tj. ti * h < F \<Longrightarrow> tj * w < T \<Longrightarrow> tile_peak s h w (ti * h) (tj * w) = Inr (pk ti tj)"
    and val: "\<And>x y. x < F \<Longrightarrow> y < T \<Longrightarrow>
                fp ! x ! y = (if \<exists>ti tj. ti * h < F \<and> tj * w < T \<and> pk ti tj = (x, y) then 1 else 0)"
    unfolding h_def w_def by blast
  have tile: "\<exists>x y. pk ti tj = (x, y) \<and> first_max_of_tile s h w F T ti tj x y"
    if "ti * h < F" "tj * w < T" for ti tj
  proof -
    from tile_peak_spec[OF assms(2) that h w] pk[OF that] obtain x y where
      "pk ti tj = (x, y)"
      "ti * h \<le> x \<and> x < ti * h + h \<and> x < F \<and> tj * w \<le> y \<and> y < tj * w + w \<and> y < T"
      "\<forall>x' y'. ti * h \<le> x' \<and> x' < ti * h + h \<and> x' < F \<and> tj * w \<le> y' \<and> y' < tj * w + w \<and> y' < T \<longrightarrow>
                  s ! x' ! y' \<le> s ! x ! y
                  \<and> (x' < x \<or> x' = x \<and> y' < y \<longrightarrow> s ! x' ! y' < s ! x ! y)"
      by auto
    then show ?thesis unfolding first_max_of_tile_def tile_cell_def by blast
  qed
  have per_tile: "\<exists>x y. first_max_of_tile s h w F T ti tj x y
         \<and> (\<forall>x' y'. tile_cell h w F T ti tj x' y' \<longrightarrow> fp ! x' ! y' = (if (x', y') = (x, y) then 1 else 0))"
    if t: "ti * h < F" "tj * w < T" for ti tj
  proof -
    from tile[OF t] obtain x y where xy: "pk ti tj = (x, y)" "first_max_of_tile s h w F T ti tj x y"
      by blast
    have "fp ! x' ! y' = (if (x', y') = (x, y) then 1 else 0)"
      if c: "tile_cell h w F T ti tj x' y'" for x' y'
    proof -
      from c have b: "x' < F" "y' < T" by (simp_all add: tile_cell_def)
      have "(\<exists>ui uj. ui * h < F \<and> uj * w < T \<and> pk ui uj = (x', y')) \<longleftrightarrow> (x', y') = (x, y)"
      proof
        assume "\<exists>ui uj. ui * h < F \<and> uj * w < T \<and> pk ui uj = (x', y')"
        then obtain ui uj where u: "ui * h < F" "uj * w < T" "pk ui uj = (x', y')" by blast
        from tile[OF u(1,2)] u(3) have "tile_cell h w F T ui uj x' y'"
          by (auto simp: first_max_of_tile_def)
        with c have "ui = ti" "uj = tj"
          unfolding tile_cell_def using same_tile_origin[OF h] same_tile_origin[OF w] by blast+
        with u(3) xy(1) show "(x', y') = (x, y)" by simp
      next
        assume "(x', y') = (x, y)"
        with xy(1) t show "\<exists>ui uj. ui * h < F \<and> uj * w < T \<and> pk ui uj = (x', y')" by auto
      qed
      with val[OF b] show ?thesis by simp
    qed
    with xy(2) show ?thesis by blast
  qed
  have bin: "\<forall>x < F. \<forall>y < T. fp ! x ! y = 0 \<or> fp ! x ! y = 1"
    using val by auto
  have "extractLandmarksFingerprinting col a samples sr = Inr fp"
    by (simp add: extractLandmarksFingerprinting_def assms(1) fp(1))
  with fp(2) bin per_tile show ?thesis unfolding h_def w_def by blast
qed

theorem landmarks_one_peak_per_tile_witness:
  "landmark_spectrogram example_collaborators example_landmark_args [] 16000
     = Inr [[1, 2, 1], [0, 2, 3]]
   \<and> shaped 2 3 [[1, 2, 1], [0, 2, 3 :: real]]
   \<and> 0 < height example_landmark_args \<and> 0 < width example_landmark_args
   \<and> (\<exists>fp. extractLandmarksFingerprinting example_collaborators example_landmark_args [] 16000
               = Inr fp
         \<and> shaped 2 3 fp
         \<and> (\<forall>x < 2. \<forall>y < 3. fp ! x ! y = 0 \<or> fp ! x ! y = 1)
         \<and> (\<forall>ti tj. ti * nat (height example_landmark_args) < 2
                      \<and> tj * nat (width example_landmark_args) < 3 \<longrightarrow>
                (\<exists>x y. first_max_of_tile [[1, 2, 1], [0, 2, 3]] (nat (height example_landmark_args))
                          (nat (width example_landmark_args)) 2 3 ti tj x y
                   \<and> (\<forall>x' y'. tile_cell (nat (height example_landmark_args))
                                  (nat (width example_landmark_args)) 2 3 ti tj x' y' \<longrightarrow>
                          fp ! x' ! y' = (if (x', y') = (x, y) then 1 else 0)))))"
proof -
  have h2: "shaped 2 3 [[1, 2, 1], [0, 2, 3 :: real]]" by (simp add: shaped_def)
  have h3: "0 < height example_landmark_args" and h4: "0 < width example_landmark_args"
    by (simp_all add: example_landmark_args_def)
  from landmarks_one_peak_per_tile[OF example_spectrogram h2 h3 h4]
  show ?thesis using example_spectrogram h2 h3 h4 by blast
qed

text \<open>
  C5, on the code. The claim takes the upper end of the Bark axis to be
  \<open>bark (min high_freq (sr / 2))\<close>. Line 43 computes \<open>min (bark high_freq) (sr / 2)\<close>: the
  minimum of a Bark value and a frequency in Hz. At 8 kHz with \<open>high_freq = 5000\<close> the
  upper end is \<open>bark 5000\<close>, above the Bark value of the Nyquist frequency.
\<close>

theorem bark_high_above_nyquist:
  "bark_high 5000 8000 = bark 5000 \<and> bark (min 5000 (8000 / 2)) < bark_high 5000 8000"
proof -
  have "arsinh (5000 / 600 :: real) \<le> 2 * (5000 / 600)" by (rule arsinh_le_double) simp
  then have "6 * arsinh (5000 / 600 :: real) \<le> 8000 / 2" by simp
  then have a: "bark_high 5000 8000 = bark 5000" by (simp add: bark_high_def bark_def)
  have "arsinh (4000 / 600 :: real) < arsinh (5000 / 600)"
    by simp
  then have "bark (min 5000 (8000 / 2)) < bark 5000" by (simp add: bark_def)
  with a show ?thesis by simp
qed

text \<open>
  C6. For each band \<open>m\<close> in \<open>1..n_bands\<close> with boundary bin indices \<open>low\<close>, \<open>center\<close>,
  \<open>high\<close> (the truncated entries \<open>m - 1\<close>, \<open>m\<close>, \<open>m + 1\<close> of \<^verbatim>\<open>bin\<close>), row \<open>m - 1\<close> of the
  filterbank holds, at every bin \<open>k\<close> in \<open>[low, high)\<close>, the weight the five-region rule
  gives for \<open>delta = center - k\<close>, and 0 at every other bin. \<open>delta\<close> is an integer, so
  exactly one region applies and the weight is the only one the rule allows. Bin indices
  are indices of FFT bins, from 0 on (\<open>0 \<le> low\<close>); the filterbank is the one the code
  returns, so no write was out of range and no power overflowed.
\<close>

theorem filterbank_five_region_rule:
  assumes "filterbank nfft nb lf hf sr = Inr fb"
    and "hz_freq lf hf sr nb = Inr hz"
    and "1 \<le> m" and "m \<le> nb"
    and "bin_index (nfft div 2 + 1) hz sr (m - 1) = Inr low"
    and "bin_index (nfft div 2 + 1) hz sr m = Inr center"
    and "bin_index (nfft div 2 + 1) hz sr (m + 1) = Inr high"
    and "0 \<le> low"
  shows "length (fb ! nat (m - 1)) = nat (nfft div 2 + 1)
         \<and> (\<forall>k < nat (nfft div 2 + 1).
               if low \<le> int k \<and> int k < high
               then \<forall>w. five_region_weight (real_of_int (center - int k)) (real k) w
                          \<longleftrightarrow> w = fb ! nat (m - 1) ! k
               else fb ! nat (m - 1) ! k = 0)"
proof -
  from filterbank_row[OF assms]
  have len: "length (fb ! nat (m - 1)) = nat (nfft div 2 + 1)"
    and row: "\<forall>k < nat (nfft div 2 + 1).
               if low \<le> int k \<and> int k < high
               then band_weight center (int k) = Inr (fb ! nat (m - 1) ! k)
               else fb ! nat (m - 1) ! k = 0"
    by simp_all
  have "if low \<le> int k \<and> int k < high
        then \<forall>w. five_region_weight (real_of_int (center - int k)) (real k) w
                   \<longleftrightarrow> w = fb ! nat (m - 1) ! k
        else fb ! nat (m - 1) ! k = 0" if "k < nat (nfft div 2 + 1)" for k
  proof (cases "low \<le> int k \<and> int k < high")
    case True
    have "band_weight center (int k) = Inr (fb ! nat (m - 1) ! k)"
      using row[rule_format, OF that] unfolding if_P[OF True] .
    from band_weight_five_regions[OF this]
    show ?thesis unfolding if_P[OF True] by simp
  next
    case False
    have "fb ! nat (m - 1) ! k = 0"
      using row[rule_format, OF that] unfolding if_not_P[OF False] .
    then show ?thesis unfolding if_not_P[OF False] .
  qed
  with len show ?thesis by blast
qed

theorem filterbank_five_region_rule_witness:
  "filterbank 32 2 0 (4725 / 2) 5100
     = Inr [[10 powr (1 / 20), 1, 10 powr (25 / 4), 0, 0, 0, 0, 0, 0, 0, 0, 0, 0, 0, 0, 0, 0],
            [0, 10 powr (- (1 / 20)), 10 powr (- (3 / 20)), 1, 10 powr (45 / 4),
             0, 0, 0, 0, 0, 0, 0, 0, 0, 0, 0, 0]]
   \<and> hz_freq 0 (4725 / 2) 5100 2 = Inr [0, 450, 1125, 4725 / 2]
   \<and> (1::int) \<le> 2 \<and> (2::int) \<le> 2
   \<and> bin_index (32 div 2 + 1) [0, 450, 1125, 4725 / 2] 5100 (2 - 1) = Inr 1
   \<and> bin_index (32 div 2 + 1) [0, 450, 1125, 4725 / 2] 5100 2 = Inr 3
   \<and> bin_index (32 div 2 + 1) [0, 450, 1125, 4725 / 2] 5100 (2 + 1) = Inr 7
   \<and> (0::int) \<le> 1
   \<and> (\<forall>w. five_region_weight (real_of_int (3 - int 4)) (real 4) w \<longleftrightarrow> w = 10 powr (45 / 4))
   \<and> (\<forall>w. five_region_weight (real_of_int (3 - int 2)) (real 2) w \<longleftrightarrow> w = 10 powr (- (3 / 20)))
   \<and> [[10 powr (1 / 20), 1, 10 powr (25 / 4), 0, 0, 0, 0, 0, 0, 0, 0, 0, 0, 0, 0, 0, 0],
        [0, 10 powr (- (1 / 20)), 10 powr (- (3 / 20)), 1, 10 powr (45 / 4),
         0, 0, 0, 0, 0, 0, 0, 0, 0, 0, 0, 0 :: real]] ! nat (2 - 1) ! 0 = 0"
proof -
  let ?hz = "[0, 450, 1125, 4725 / 2 :: real]"
  let ?fb = "[[10 powr (1 / 20), 1, 10 powr (25 / 4), 0, 0, 0, 0, 0, 0, 0, 0, 0, 0, 0, 0, 0, 0],
        [0, 10 powr (- (1 / 20)), 10 powr (- (3 / 20)), 1, 10 powr (45 / 4),
         0, 0, 0, 0, 0, 0, 0, 0, 0, 0, 0, 0 :: real]]"
  have h3: "(1::int) \<le> 2" and h4: "(2::int) \<le> 2" and h8: "(0::int) \<le> 1" by simp_all
  have h5: "bin_index (32 div 2 + 1) ?hz 5100 (2 - 1) = Inr 1"
    and h6: "bin_index (32 div 2 + 1) ?hz 5100 2 = Inr 3"
    and h7: "bin_index (32 div 2 + 1) ?hz 5100 (2 + 1) = Inr 7"
    using example_bins by simp_all
  note rule = filterbank_five_region_rule[OF example_filterbank example_hz_freq h3 h4 h5 h6 h7 h8]
  from rule have row: "\<forall>k < nat (32 div 2 + 1).
               if 1 \<le> int k \<and> int k < 7
               then \<forall>w. five_region_weight (real_of_int (3 - int k)) (real k) w
                          \<longleftrightarrow> w = ?fb ! nat (2 - 1) ! k
               else ?fb ! nat (2 - 1) ! k = 0"
    by blast
  have k4: "\<forall>w. five_region_weight (real_of_int (3 - int 4)) (real 4) w \<longleftrightarrow> w = 10 powr (45 / 4)"
    using row[rule_format, of 4] by simp
  have k2: "\<forall>w. five_region_weight (real_of_int (3 - int 2)) (real 2) w \<longleftrightarrow> w = 10 powr (- (3 / 20))"
    using row[rule_format, of 2] by simp
  have k0: "?fb ! nat (2 - 1) ! 0 = 0"
    using row[rule_format, of 0] by simp
  show ?thesis
    using example_filterbank example_hz_freq h3 h4 h5 h6 h7 h8 k4 k2 k0 by blast
qed

text \<open>
  C9. The fingerprint \<^verbatim>\<open>extractFBEFingerprinting\<close> returns, or the exception it raises,
  is the same for any two values of \<^verbatim>\<open>window_type\<close>, all other arguments being equal.
\<close>

theorem fbe_window_type_ignored:
  "extractFBEFingerprinting col (a\<lparr>window_type := w1\<rparr>) samples sr
     = extractFBEFingerprinting col (a\<lparr>window_type := w2\<rparr>) samples sr"
  by (simp add: extractFBEFingerprinting_def fbe_frames_def fbe_energy_def)

text \<open>
  C10. In \<^verbatim>\<open>extractFBEFingerprinting\<close>, for every frame \<open>i \<ge> 1\<close> the bit in column 0 is
  computed with Python's negative index: \<^verbatim>\<open>fp[i][0]\<close> is 1 exactly when
  \<open>(E[i][0] - E[i][1]) - (E[i-1][0] - E[i-1][n_bands - 1]) > 0\<close>, the neighbour \<open>j - 1\<close>
  being the last band of the previous frame. \<open>E\<close> is the energy matrix of lines 37--72;
  the frames are those the collaborators return, and the filterbank is built without an
  exception.
\<close>

theorem fbe_column_zero_wraps:
  assumes "fbe_frames col a samples sr = Inr frames"
    and "1 \<le> fft_points a" and "2 \<le> n_bands a"
    and "returns (filterbank (fft_points a) (n_bands a) (low_freq a) (high_freq a) sr)"
    and "1 \<le> i" and "i < length frames"
  shows "\<exists>E fp. fbe_energy a sr frames = Inr E
           \<and> extractFBEFingerprinting col a samples sr = Inr fp
           \<and> fp ! i ! 0 =
               (if E ! i ! 0 - E ! i ! 1 - (E ! (i - 1) ! 0 - E ! (i - 1) ! (nat (n_bands a) - 1)) > 0
                then 1 else 0)"
proof -
  from assms(3) have nb: "1 \<le> n_bands a" by simp
  from extractFBE_bits[OF assms(1,2) nb assms(4)] obtain E fp where
    E: "fbe_energy a sr frames = Inr E" "shaped (length frames) (nat (n_bands a)) E"
    and fp: "extractFBEFingerprinting col a samples sr = Inr fp"
    and bits: "\<forall>i < length frames. \<forall>j < nat (n_bands a) - 1.
                 fp ! i ! j = (if i = 0 then 0 else bit_rule E i j)"
    by blast
  have "length (E ! (i - 1)) = nat (n_bands a)"
    using E(2) assms(5,6) by (auto simp: shaped_def)
  moreover have "fp ! i ! 0 = bit_rule E i 0"
    using bits assms(3,5,6) by auto
  ultimately show ?thesis using E(1) fp by (auto simp: bit_rule_def)
qed

theorem fbe_column_zero_wraps_witness:
  "fbe_frames example_collaborators (default_fbe_args\<lparr>window_length := 2\<rparr>) [1, 0, 0, 1] 16000
     = Inr [[1, 0], [0, 1]]
   \<and> 1 \<le> fft_points (default_fbe_args\<lparr>window_length := 2\<rparr>)
   \<and> 2 \<le> n_bands (default_fbe_args\<lparr>window_length := 2\<rparr>)
   \<and> returns (filterbank 512 33 300 2000 16000)
   \<and> (1::nat) \<le> 1 \<and> 1 < length [[1, 0], [0, 1::real]]
   \<and> (\<exists>E fp. fbe_energy (default_fbe_args\<lparr>window_length := 2\<rparr>) 16000 [[1, 0], [0, 1]] = Inr E
         \<and> extractFBEFingerprinting example_collaborators (default_fbe_args\<lparr>window_length := 2\<rparr>)
              [1, 0, 0, 1] 16000 = Inr fp
         \<and> fp ! 1 ! 0 = (if E ! 1 ! 0 - E ! 1 ! 1 - (E ! 0 ! 0 - E ! 0 ! 32) > 0 then 1 else 0))"
proof -
  let ?a = "default_fbe_args\<lparr>window_length := 2\<rparr>"
  have h2: "1 \<le> fft_points ?a" and h3: "2 \<le> n_bands ?a"
    by (simp_all add: default_fbe_args_def)
  have h4: "returns (filterbank (fft_points ?a) (n_bands ?a) (low_freq ?a) (high_freq ?a) 16000)"
    using default_filterbank_returns by (simp add: default_fbe_args_def)
  have h5: "(1::nat) \<le> 1" and h6: "1 < length [[1, 0], [0, 1::real]]" by simp_all
  from fbe_column_zero_wraps[OF example_frames h2 h3 h4 h5 h6]
  show ?thesis
    using example_frames h2 h3 default_filterbank_returns by (simp add: default_fbe_args_def)
qed

end
